theory Spec2Isabelle
  imports Complex_Main
begin

section \<open>Python values, exceptions and library functions\<close>

text \<open>
  The agent of \<^verbatim>\<open>my_agent.py\<close> is a Python class. Words are Python strings and are
  modelled as \<^typ>\<open>string\<close> (lists of characters); the dictionary and its working copy
  are lists of words. Every place where the Python raises is a branch of the model
  that yields the exception as a value.

  Scores are Python floats, that is IEEE 754 doubles. A double is modelled by the real
  number it stands for, and every operation of the source rounds its exact result to
  the nearest double, ties to the even significand (section \<open>Python floats\<close> below).
\<close>

datatype error = IndexError | ValueError | ZeroDivisionError | UnboundLocalError

text \<open>\<^verbatim>\<open>xs[i]\<close> for a non-negative index: IndexError out of range.\<close>

definition py_index :: "'a list \<Rightarrow> nat \<Rightarrow> error + 'a" where
  "py_index xs i = (if i < length xs then Inr (xs ! i) else Inl IndexError)"

text \<open>
  \<^verbatim>\<open>xs.index(v)\<close>: the position of the first element equal to \<open>v\<close>, ValueError when
  there is none.
\<close>

fun index_from :: "'a list \<Rightarrow> 'a \<Rightarrow> nat \<Rightarrow> error + nat" where
  "index_from [] v k = Inl ValueError"
| "index_from (x # xs) v k = (if x = v then Inr k else index_from xs v (Suc k))"

definition py_list_index :: "'a list \<Rightarrow> 'a \<Rightarrow> error + nat" where
  "py_list_index xs v = index_from xs v 0"

text \<open>
  \<^verbatim>\<open>np.argmax(scores)\<close> is a library function: by its documentation it returns the index
  of the first occurrence of the maximum, and raises ValueError on an empty sequence.
  \<open>argmax_loop\<close> scans the rest of the list with the running index, the best index so
  far and its value.
\<close>

fun argmax_loop :: "real list \<Rightarrow> nat \<Rightarrow> nat \<Rightarrow> real \<Rightarrow> nat" where
  "argmax_loop [] i best bv = best"
| "argmax_loop (y # ys) i best bv =
     (if bv < y then argmax_loop ys (Suc i) i y else argmax_loop ys (Suc i) best bv)"

definition argmax :: "real list \<Rightarrow> error + nat" where
  "argmax scores = (case scores of [] \<Rightarrow> Inl ValueError | x # xs \<Rightarrow> Inr (argmax_loop xs 1 0 x))"

section \<open>Python floats\<close>

text \<open>
  \<open>bit_length n\<close> is the number of binary digits of \<open>n\<close>, and \<open>ilog2 y\<close> is the floor of
  the binary logarithm of a positive \<open>y\<close>, computed from the digits of its integer part,
  or of the integer part of its inverse when \<open>y\<close> is below 1.
\<close>

function bit_length :: "nat \<Rightarrow> nat" where
  "bit_length n = (if n = 0 then 0 else Suc (bit_length (n div 2)))"
  by pat_completeness auto
termination
  by (relation "measure (\<lambda>n. n)") auto

declare bit_length.simps [simp del]

definition pow2 :: "int \<Rightarrow> real" where
  "pow2 e = (if 0 \<le> e then 2 ^ nat e else 1 / 2 ^ nat (- e))"

definition ilog2 :: "real \<Rightarrow> int" where
  "ilog2 y = (if 1 \<le> y then int (bit_length (nat \<lfloor>y\<rfloor>)) - 1
              else - int (bit_length (nat (\<lceil>1 / y\<rceil> - 1))))"

definition round_half_even :: "real \<Rightarrow> int" where
  "round_half_even y =
     (let f = \<lfloor>y\<rfloor>; r = y - of_int f
      in if r < 1 / 2 then f else if 1 / 2 < r then f + 1 else if even f then f else f + 1)"

text \<open>
  \<open>fl x\<close> is the double nearest to \<open>x\<close>: a significand of 53 binary digits, the spacing
  \<open>2 ^ (ilog2 \<bar>x\<bar> - 52)\<close> of the doubles around \<open>x\<close>, and not below the spacing \<open>2 ^ -1074\<close>
  of the subnormal doubles. The overflow to infinity above \<open>2 ^ 1024\<close> is not modelled:
  the floats of the agent are fractions of a count, their products and sums of at most
  \<^verbatim>\<open>len(word)\<close> such products.
\<close>

definition fl :: "real \<Rightarrow> real" where
  "fl x = (if x = 0 then 0
           else let e = max (ilog2 \<bar>x\<bar> - 52) (- 1074)
                in sgn x * of_int (round_half_even (\<bar>x\<bar> / pow2 e)) * pow2 e)"

text \<open>
  The operations of the source on floats: \<^verbatim>\<open>x + y\<close>, \<^verbatim>\<open>x - y\<close> and \<^verbatim>\<open>x * y\<close> on doubles, and
  the true division \<^verbatim>\<open>n / d\<close> of two integers, which Python rounds correctly. An integer
  operand is converted exactly: the integers of the agent are 0, 1 and counts of letters.
\<close>

definition float_add :: "real \<Rightarrow> real \<Rightarrow> real" where
  "float_add x y = fl (x + y)"

definition float_sub :: "real \<Rightarrow> real \<Rightarrow> real" where
  "float_sub x y = fl (x - y)"

definition float_mul :: "real \<Rightarrow> real \<Rightarrow> real" where
  "float_mul x y = fl (x * y)"

definition true_div :: "nat \<Rightarrow> nat \<Rightarrow> real" where
  "true_div n d = fl (real n / real d)"

section \<open>The agent\<close>

text \<open>
  The fields of \<^verbatim>\<open>WordleAgent\<close>, as \<^verbatim>\<open>__init__\<close> sets them. \<open>first_guess_index\<close> holds
  0 or a result of \<^verbatim>\<open>np.argmax\<close>, so it is a natural number.
\<close>

record agent =
  dictionary :: "string list"
  dictionary_backup :: "string list"
  letters :: "char list"
  word_length :: int
  num_guesses :: int
  mode :: string
  first_guess_index :: nat
  last_guess_counter :: int

text \<open>The percepts: \<open>(guess_counter, letter_indexes, letter_states)\<close>.\<close>

type_synonym percepts = "int \<times> int list \<times> int list"

definition init :: "string list \<Rightarrow> char list \<Rightarrow> int \<Rightarrow> int \<Rightarrow> string \<Rightarrow> agent" where
  "init dict ls wl ng m =
     \<lparr> dictionary = dict, dictionary_backup = dict, letters = ls, word_length = wl,
       num_guesses = ng, mode = m, first_guess_index = 0, last_guess_counter = 0 \<rparr>"

text \<open>
  Modelled from the spec: \<^verbatim>\<open>helper.letter_indices_to_word\<close> is imported by the agent and
  is not part of its source file. The spec describes it as a pure function from the
  letter identifiers and the alphabet to the literal word. The functions below take the
  decoder as the parameter \<open>decode\<close>; this definition is the decoder used in the concrete
  examples.
\<close>

definition letter_indices_to_word :: "int list \<Rightarrow> char list \<Rightarrow> string" where
  "letter_indices_to_word letter_indexes ls = map (\<lambda>i. ls ! nat i) letter_indexes"

section \<open>reduce\_guesses\<close>

text \<open>
  The body of the inner loop of \<^verbatim>\<open>reduce_guesses\<close> at one position \<open>i\<close> of a candidate
  \<open>word\<close>: \<open>Inr True\<close> when the candidate is removed at this position (the loop then
  breaks), \<open>Inr False\<close> when the loop goes on. \<open>i\<close> ranges over \<^verbatim>\<open>range(len(word))\<close>, so
  \<^verbatim>\<open>word[i]\<close> is in range; \<^verbatim>\<open>letter_states[i]\<close> and \<^verbatim>\<open>in_english[i]\<close> may raise.
\<close>

definition position_removes :: "string \<Rightarrow> int list \<Rightarrow> string \<Rightarrow> nat \<Rightarrow> error + bool" where
  "position_removes in_english letter_states word i =
     (case py_index letter_states i of
        Inl e \<Rightarrow> Inl e
      | Inr s \<Rightarrow>
          if s = 0 then
            (case py_index in_english i of
               Inl e \<Rightarrow> Inl e
             | Inr c \<Rightarrow>
                 if c \<in> set word then
                   (if count_list in_english c = 1 then Inr True
                    else if c = word ! i then Inr True
                    else Inr False)
                 else Inr False)
          else if s = 1 then
            (case py_index in_english i of
               Inl e \<Rightarrow> Inl e
             | Inr c \<Rightarrow> if c \<noteq> word ! i then Inr True else Inr False)
          else if s = - 1 then
            (case py_index in_english i of
               Inl e \<Rightarrow> Inl e
             | Inr c \<Rightarrow> if c \<notin> set word \<or> c = word ! i then Inr True else Inr False)
          else Inr False)"

text \<open>The inner loop over the positions of one candidate, with its \<^verbatim>\<open>break\<close>.\<close>

fun check_word :: "string \<Rightarrow> int list \<Rightarrow> string \<Rightarrow> nat list \<Rightarrow> error + bool" where
  "check_word in_english letter_states word [] = Inr False"
| "check_word in_english letter_states word (i # is) =
     (case position_removes in_english letter_states word i of
        Inl e \<Rightarrow> Inl e
      | Inr r \<Rightarrow> if r then Inr True else check_word in_english letter_states word is)"

text \<open>
  The outer loop runs over the copy \<open>dict_copy\<close> and mutates \<open>dictionary_backup\<close> with
  \<^verbatim>\<open>list.remove\<close>, which deletes the first equal element and raises ValueError when
  there is none. The result is the exception raised, if any, and the list as the loop
  left it.
\<close>

fun reduce_loop ::
  "string \<Rightarrow> int list \<Rightarrow> string list \<Rightarrow> string list \<Rightarrow> error option \<times> string list" where
  "reduce_loop in_english letter_states [] backup = (None, backup)"
| "reduce_loop in_english letter_states (word # dict_copy) backup =
     (case check_word in_english letter_states word [0..<length word] of
        Inl e \<Rightarrow> (Some e, backup)
      | Inr r \<Rightarrow>
          if r then
            (if word \<in> set backup
             then reduce_loop in_english letter_states dict_copy (remove1 word backup)
             else (Some ValueError, backup))
          else reduce_loop in_english letter_states dict_copy backup)"

definition reduce_guesses ::
  "(int list \<Rightarrow> char list \<Rightarrow> string) \<Rightarrow> agent \<Rightarrow> percepts \<Rightarrow> error option \<times> agent" where
  "reduce_guesses decode a percepts =
     (case percepts of (guess_counter, letter_indexes, letter_states) \<Rightarrow>
        let dict_copy = dictionary_backup a;
            in_english = decode letter_indexes (letters a)
        in case reduce_loop in_english letter_states dict_copy (dictionary_backup a) of
             (r, backup) \<Rightarrow> (r, a\<lparr>dictionary_backup := backup\<rparr>))"

section \<open>Scoring\<close>

text \<open>
  \<^verbatim>\<open>probability\<close>: the loop counts the candidates that carry \<open>char\<close> at \<open>pos\<close>; a candidate
  shorter than \<open>pos + 1\<close> raises IndexError, an empty candidate list makes the division
  raise ZeroDivisionError.
\<close>

fun freq_loop :: "string list \<Rightarrow> char \<Rightarrow> nat \<Rightarrow> nat \<Rightarrow> error + nat" where
  "freq_loop [] char pos freq = Inr freq"
| "freq_loop (w # ws) char pos freq =
     (case py_index w pos of
        Inl e \<Rightarrow> Inl e
      | Inr c \<Rightarrow> freq_loop ws char pos (if c = char then freq + 1 else freq))"

definition probability :: "agent \<Rightarrow> char \<Rightarrow> nat \<Rightarrow> error + real" where
  "probability a char pos =
     (case freq_loop (dictionary_backup a) char pos 0 of
        Inl e \<Rightarrow> Inl e
      | Inr freq \<Rightarrow>
          if length (dictionary_backup a) = 0 then Inl ZeroDivisionError
          else Inr (true_div freq (length (dictionary_backup a))))"

definition entropy :: "agent \<Rightarrow> char \<Rightarrow> nat \<Rightarrow> error + real" where
  "entropy a char pos =
     (case probability a char pos of
        Inl e \<Rightarrow> Inl e
      | Inr p \<Rightarrow> Inr (float_mul p (float_sub 1 p)))"

text \<open>
  The loop of \<^verbatim>\<open>score\<close> over \<^verbatim>\<open>range(len(word))\<close>, with the running sum \<open>s\<close> and the
  flag \<open>double_letter\<close>, which is set before the loop and never cleared in it.
\<close>

fun score_loop :: "agent \<Rightarrow> string \<Rightarrow> nat list \<Rightarrow> real \<Rightarrow> bool \<Rightarrow> error + real \<times> bool" where
  "score_loop a word [] s double_letter = Inr (s, double_letter)"
| "score_loop a word (i # is) s double_letter =
     (case entropy a (word ! i) i of
        Inl e \<Rightarrow> Inl e
      | Inr e \<Rightarrow>
          score_loop a word is (float_add s e)
            (if 1 < count_list word (word ! i) then True else double_letter))"

definition score :: "agent \<Rightarrow> string \<Rightarrow> error + real" where
  "score a word =
     (case score_loop a word [0..<length word] 0 False of
        Inl e \<Rightarrow> Inl e
      | Inr (s, double_letter) \<Rightarrow>
          Inr (if double_letter then float_mul s (fl (9 / 10)) else s))"

text \<open>\<^verbatim>\<open>calculate_scores\<close> appends one score per candidate, in the candidates' order.\<close>

fun scores_loop :: "agent \<Rightarrow> string list \<Rightarrow> error + real list" where
  "scores_loop a [] = Inr []"
| "scores_loop a (word # ws) =
     (case score a word of
        Inl e \<Rightarrow> Inl e
      | Inr s \<Rightarrow> (case scores_loop a ws of Inl e \<Rightarrow> Inl e | Inr ss \<Rightarrow> Inr (s # ss)))"

definition calculate_scores :: "agent \<Rightarrow> error + real list" where
  "calculate_scores a = scores_loop a (dictionary_backup a)"

section \<open>The opener\<close>

text \<open>
  \<^verbatim>\<open>run_once\<close> wraps a method; the flag \<open>has_run\<close> is an attribute of the wrapper, which
  the class holds once for the whole process. It is set before the wrapped function
  runs, so it stays set when that function raises. A call with the flag set does
  nothing. The flag is passed and returned beside the agent.
\<close>

definition run_once ::
  "(agent \<Rightarrow> error option \<times> agent) \<Rightarrow> bool \<Rightarrow> agent \<Rightarrow> error option \<times> bool \<times> agent" where
  "run_once f has_run a =
     (if \<not> has_run then (case f a of (r, a') \<Rightarrow> (r, True, a')) else (None, has_run, a))"

definition get_first_guess_body :: "agent \<Rightarrow> error option \<times> agent" where
  "get_first_guess_body a =
     (case calculate_scores a of
        Inl e \<Rightarrow> (Some e, a)
      | Inr scores \<Rightarrow>
          (case argmax scores of
             Inl e \<Rightarrow> (Some e, a)
           | Inr k \<Rightarrow> (None, a\<lparr>first_guess_index := k\<rparr>)))"

definition get_first_guess :: "bool \<Rightarrow> agent \<Rightarrow> error option \<times> bool \<times> agent" where
  "get_first_guess = run_once get_first_guess_body"

section \<open>The stuck-position heuristic\<close>

definition green_counter :: "percepts \<Rightarrow> int" where
  "green_counter percepts =
     (case percepts of (guess_counter, letter_indexes, letter_states) \<Rightarrow>
        int (count_list letter_states 1))"

text \<open>The first loop of \<^verbatim>\<open>smart_guess\<close>: the letters of the candidates at \<open>grey_pos\<close>.\<close>

fun collect_letters :: "string list \<Rightarrow> nat \<Rightarrow> error + char list" where
  "collect_letters [] grey_pos = Inr []"
| "collect_letters (word # ws) grey_pos =
     (case py_index word grey_pos of
        Inl e \<Rightarrow> Inl e
      | Inr c \<Rightarrow>
          (case collect_letters ws grey_pos of Inl e \<Rightarrow> Inl e | Inr cs \<Rightarrow> Inr (c # cs)))"

text \<open>
  The loop over the characters of one dictionary word. The source assigns
  \<^verbatim>\<open>double_letter = False\<close> at the start of every iteration of this loop, so after the
  loop the flag tells about the last character only. The flag is a local variable of
  \<^verbatim>\<open>smart_guess\<close>: it is unbound (\<open>None\<close>) until the first character of the first
  non-empty word, and it keeps its value over an empty word.
\<close>

fun smart_chars ::
  "char list \<Rightarrow> string \<Rightarrow> string \<Rightarrow> nat \<Rightarrow> bool option \<Rightarrow> nat \<times> bool option" where
  "smart_chars possible_letters word [] s double_letter = (s, double_letter)"
| "smart_chars possible_letters word (char # cs) s double_letter =
     (if char \<in> set possible_letters
      then smart_chars possible_letters word cs (s + 1)
             (Some (if 1 < count_list word char then True else False))
      else smart_chars possible_letters word cs s (Some False))"

fun smart_scores :: "char list \<Rightarrow> string list \<Rightarrow> bool option \<Rightarrow> error + real list" where
  "smart_scores possible_letters [] double_letter = Inr []"
| "smart_scores possible_letters (word # ws) double_letter =
     (case smart_chars possible_letters word word 0 double_letter of
        (s, None) \<Rightarrow> Inl UnboundLocalError
      | (s, Some d) \<Rightarrow>
          (case smart_scores possible_letters ws (Some d) of
             Inl e \<Rightarrow> Inl e
           | Inr ss \<Rightarrow>
               Inr ((if d then float_mul (real s) (fl (1 / 10)) else real s) # ss)))"

definition smart_guess :: "agent \<Rightarrow> percepts \<Rightarrow> error + string" where
  "smart_guess a percepts =
     (case percepts of (guess_counter, letter_indexes, letter_states) \<Rightarrow>
        (case py_list_index letter_states 0 of
           Inl e \<Rightarrow> Inl e
         | Inr grey_pos \<Rightarrow>
             (case collect_letters (dictionary_backup a) grey_pos of
                Inl e \<Rightarrow> Inl e
              | Inr possible_letters \<Rightarrow>
                  (case smart_scores possible_letters (dictionary a) None of
                     Inl e \<Rightarrow> Inl e
                   | Inr scores \<Rightarrow>
                       (case argmax scores of
                          Inl e \<Rightarrow> Inl e
                        | Inr smart_index \<Rightarrow> py_index (dictionary a) smart_index)))))"

section \<open>AgentFunction\<close>

text \<open>
  Lines 96 to 99: when the percepts' counter differs from the agent's own, the
  candidate at the first maximum of the scores is removed.
\<close>

definition drop_rejected :: "agent \<Rightarrow> int \<Rightarrow> error option \<times> agent" where
  "drop_rejected a guess_counter =
     (if guess_counter \<noteq> last_guess_counter a then
        (case calculate_scores a of
           Inl e \<Rightarrow> (Some e, a)
         | Inr scores \<Rightarrow>
             (case argmax scores of
                Inl e \<Rightarrow> (Some e, a)
              | Inr max_index \<Rightarrow>
                  (case py_index (dictionary_backup a) max_index of
                     Inl e \<Rightarrow> (Some e, a)
                   | Inr word \<Rightarrow>
                       if word \<in> set (dictionary_backup a)
                       then (None, a\<lparr>dictionary_backup := remove1 word (dictionary_backup a)\<rparr>)
                       else (Some ValueError, a))))
      else (None, a))"

text \<open>The test of line 109 together with the one of line 111.\<close>

definition stuck_position :: "agent \<Rightarrow> percepts \<Rightarrow> bool" where
  "stuck_position a percepts =
     (case percepts of (guess_counter, letter_indexes, letter_states) \<Rightarrow>
        mode a = ''easy'' \<and> 2 < length (dictionary_backup a) \<and>
        guess_counter \<noteq> num_guesses a - 1 \<and>
        green_counter percepts = word_length a - 1)"

text \<open>
  Lines 106 to 118: the choice of the guess. With no candidate left the method falls
  off its end and returns \<^verbatim>\<open>None\<close>.
\<close>

definition choose_guess :: "agent \<Rightarrow> percepts \<Rightarrow> error + string option" where
  "choose_guess a percepts =
     (if 0 < length (dictionary_backup a) then
        (if stuck_position a percepts then
           (case smart_guess a percepts of Inl e \<Rightarrow> Inl e | Inr guess \<Rightarrow> Inr (Some guess))
         else
           (case calculate_scores a of
              Inl e \<Rightarrow> Inl e
            | Inr scores \<Rightarrow>
                (case argmax scores of
                   Inl e \<Rightarrow> Inl e
                 | Inr max_index \<Rightarrow>
                     (case py_index (dictionary_backup a) max_index of
                        Inl e \<Rightarrow> Inl e
                      | Inr word \<Rightarrow> Inr (Some word)))))
      else Inr None)"

text \<open>
  One call of \<^verbatim>\<open>AgentFunction\<close>: what the call returns or raises, and the flag and the
  agent as the call leaves them.
\<close>

definition AgentFunction ::
  "(int list \<Rightarrow> char list \<Rightarrow> string) \<Rightarrow> bool \<Rightarrow> agent \<Rightarrow> percepts \<Rightarrow>
     (error + string option) \<times> bool \<times> agent" where
  "AgentFunction decode has_run a percepts =
     (case percepts of (guess_counter, letter_indexes, letter_states) \<Rightarrow>
        (case get_first_guess has_run (a\<lparr>last_guess_counter := last_guess_counter a + 1\<rparr>) of
           (Some e, hr, a1) \<Rightarrow> (Inl e, hr, a1)
         | (None, hr, a1) \<Rightarrow>
             if guess_counter = 0 then
               (let a2 = a1\<lparr>last_guess_counter := 0, dictionary_backup := dictionary a1\<rparr>
                in case py_index (dictionary_backup a2) (first_guess_index a2) of
                     Inl e \<Rightarrow> (Inl e, hr, a2)
                   | Inr word \<Rightarrow> (Inr (Some word), hr, a2))
             else
               (case reduce_guesses decode a1 percepts of
                  (Some e, a2) \<Rightarrow> (Inl e, hr, a2)
                | (None, a2) \<Rightarrow>
                    (case drop_rejected a2 guess_counter of
                       (Some e, a3) \<Rightarrow> (Inl e, hr, a3)
                     | (None, a3) \<Rightarrow> (choose_guess a3 percepts, hr, a3)))))"

text \<open>
  A process: the calls of \<^verbatim>\<open>AgentFunction\<close> on a sequence of percepts, one after the
  other, up to the first call that raises. The outcomes are collected in order.
\<close>

fun play ::
  "(int list \<Rightarrow> char list \<Rightarrow> string) \<Rightarrow> bool \<Rightarrow> agent \<Rightarrow> percepts list \<Rightarrow>
     (error + string option) list \<times> bool \<times> agent" where
  "play decode has_run a [] = ([], has_run, a)"
| "play decode has_run a (p # ps) =
     (case AgentFunction decode has_run a p of
        (Inl e, hr, a') \<Rightarrow> ([Inl e], hr, a')
      | (Inr r, hr, a') \<Rightarrow>
          (case play decode hr a' ps of (outs, hr', a'') \<Rightarrow> (Inr r # outs, hr', a'')))"

section \<open>The spec's letter statistics\<close>

text \<open>
  These definitions follow the spec's words, not the code. \<open>letter_fraction\<close> is the
  fraction of the candidates whose letter at position \<open>i\<close> equals \<open>c\<close>, an exact number,
  and \<open>spec_score\<close> is the spec's score in exact arithmetic: the sum of \<open>p * (1 - p)\<close>
  over the positions, times 0.9 for a word with a repeated letter.
  \<open>position_entropy\<close> is the spec's \<open>p * (1 - p)\<close> evaluated in doubles: the fraction, the
  difference and the product are each rounded. The scorer of the code is compared with
  them below.
\<close>

definition letter_fraction :: "string list \<Rightarrow> char \<Rightarrow> nat \<Rightarrow> real" where
  "letter_fraction candidates c i =
     real (length (filter (\<lambda>w. w ! i = c) candidates)) / real (length candidates)"

definition spec_score :: "string list \<Rightarrow> string \<Rightarrow> real" where
  "spec_score candidates word =
     (let raw = sum_list (map (\<lambda>i. letter_fraction candidates (word ! i) i *
                                       (1 - letter_fraction candidates (word ! i) i))
                            [0..<length word])
      in if \<not> distinct word then raw * (9 / 10) else raw)"

definition position_entropy :: "string list \<Rightarrow> char \<Rightarrow> nat \<Rightarrow> real" where
  "position_entropy candidates c i =
     (let p = fl (letter_fraction candidates c i) in fl (p * fl (1 - p)))"

section \<open>Concrete agents\<close>

text \<open>The alphabet and the agents of the examples below.\<close>

definition alphabet :: "char list" where
  "alphabet = ''ABCDEFGHIJKLMNOPQRSTUVWXYZ''"

definition small_agent :: agent where
  "small_agent = init [''CRANE'', ''SLATE'', ''TRAIN''] alphabet 5 6 ''easy''"

definition oddly_agent :: agent where
  "oddly_agent = init [''BRAIN'', ''DRAIN'', ''TRAIN'', ''GRAIN'', ''ODDLY''] alphabet 5 6 ''easy''"

definition five_agent :: agent where
  "five_agent = init [''CRANE'', ''SPINE'', ''CLONE'', ''PRICE'', ''PLANT''] alphabet 5 6 ''hard''"

definition rain_agent :: agent where
  "rain_agent = init [''BRAIN'', ''DRAIN'', ''TRAIN'', ''GRAIN''] alphabet 5 6 ''hard''"

definition batty_agent :: agent where
  "batty_agent = init [''TATTY'', ''BATTY'', ''CATTY'', ''FATTY''] alphabet 5 6 ''easy''"

section \<open>Properties of the reducer\<close>

lemma reduce_loop_shrinks:
  "length (snd (reduce_loop g st ws b)) \<le> length b \<and> set (snd (reduce_loop g st ws b)) \<subseteq> set b"
proof (induction ws arbitrary: b)
  case Nil
  show ?case by simp
next
  case (Cons w ws)
  show ?case
  proof (cases "check_word g st w [0..<length w]")
    case (Inl e)
    then show ?thesis by simp
  next
    case (Inr r)
    show ?thesis
    proof (cases "r \<and> w \<in> set b")
      case True
      have "length (remove1 w b) \<le> length b" by (simp add: length_remove1)
      moreover have "set (remove1 w b) \<subseteq> set b" by (rule set_remove1_subset)
      ultimately show ?thesis using Cons.IH [of "remove1 w b"] Inr True
        by (auto simp del: length_remove1)
    next
      case False
      then show ?thesis using Cons.IH [of b] Inr by auto
    qed
  qed
qed

lemma position_removes_total:
  "i < length st \<Longrightarrow> i < length g \<Longrightarrow> \<exists>r. position_removes g st w i = Inr r"
  by (auto simp add: position_removes_def py_index_def)

lemma check_word_total:
  "\<forall>i\<in>set is. i < length st \<and> i < length g \<Longrightarrow>
   check_word g st w is = Inr (\<exists>i\<in>set is. position_removes g st w i = Inr True)"
proof (induction "is")
  case Nil
  show ?case by simp
next
  case (Cons i "is")
  from Cons.prems obtain r where r: "position_removes g st w i = Inr r"
    using position_removes_total [of i st g w] by auto
  show ?case using Cons r by (cases r) auto
qed

lemma check_word_False:
  "check_word g st w is = Inr False \<Longrightarrow> i \<in> set is \<Longrightarrow> position_removes g st w i = Inr False"
  by (induction "is") (auto split: sum.splits if_splits)

lemma reduce_loop_filter:
  assumes "\<forall>w\<in>set ws. check_word g st w [0..<length w] = Inr (rm w)"
    and "\<forall>k\<in>set ks. \<not> rm k"
  shows "reduce_loop g st ws (ks @ ws) = (None, ks @ filter (\<lambda>w. \<not> rm w) ws)"
  using assms
proof (induction ws arbitrary: ks)
  case Nil
  show ?case by simp
next
  case (Cons w ws)
  have cw: "check_word g st w [0..<length w] = Inr (rm w)" using Cons.prems(1) by simp
  show ?case
  proof (cases "rm w")
    case True
    then have "w \<notin> set ks" using Cons.prems(2) by auto
    then have "remove1 w (ks @ w # ws) = ks @ ws" by (simp add: remove1_append)
    then show ?thesis using Cons.IH [of ks] Cons.prems cw True by simp
  next
    case False
    have "reduce_loop g st ws ((ks @ [w]) @ ws) = (None, (ks @ [w]) @ filter (\<lambda>w. \<not> rm w) ws)"
      by (rule Cons.IH) (use Cons.prems False in auto)
    then show ?thesis using cw False by simp
  qed
qed

lemma reduce_loop_no_error:
  "reduce_loop g st ws b = (None, b') \<Longrightarrow> w \<in> set ws \<Longrightarrow>
   \<exists>r. check_word g st w [0..<length w] = Inr r"
proof (induction ws arbitrary: b)
  case Nil
  then show ?case by simp
next
  case (Cons x ws)
  from Cons.prems(1) obtain r where r: "check_word g st x [0..<length x] = Inr r"
    by (cases "check_word g st x [0..<length x]") auto
  show ?case
  proof (cases "w = x")
    case True
    then show ?thesis using r by simp
  next
    case False
    then have "w \<in> set ws" using Cons.prems(2) by simp
    moreover have "\<exists>c. reduce_loop g st ws c = (None, b')"
      using Cons.prems(1) r by (auto split: if_splits)
    ultimately show ?thesis using Cons.IH by blast
  qed
qed

lemma reduce_loop_is_filter:
  assumes "reduce_loop g st b b = (None, b')"
  shows "b' = filter (\<lambda>w. check_word g st w [0..<length w] = Inr False) b"
proof -
  let ?rm = "\<lambda>w. check_word g st w [0..<length w] = Inr True"
  have tot: "\<exists>r. check_word g st w [0..<length w] = Inr r" if "w \<in> set b" for w
    using reduce_loop_no_error [OF assms that] .
  have "\<forall>w\<in>set b. check_word g st w [0..<length w] = Inr (?rm w)"
  proof
    fix w assume "w \<in> set b"
    then obtain r where "check_word g st w [0..<length w] = Inr r"
      using tot by blast
    then show "check_word g st w [0..<length w] = Inr (?rm w)" by (cases r) simp_all
  qed
  then have "reduce_loop g st b ([] @ b) = (None, [] @ filter (\<lambda>w. \<not> ?rm w) b)"
    by (intro reduce_loop_filter) simp_all
  then have "b' = filter (\<lambda>w. \<not> ?rm w) b" using assms by simp
  moreover have "filter (\<lambda>w. \<not> ?rm w) b = filter (\<lambda>w. check_word g st w [0..<length w] = Inr False) b"
  proof (intro filter_cong refl)
    fix w assume "w \<in> set b"
    then obtain r where "check_word g st w [0..<length w] = Inr r"
      using tot by blast
    then show "(\<not> ?rm w) = (check_word g st w [0..<length w] = Inr False)"
      by (cases r) simp_all
  qed
  ultimately show ?thesis by simp
qed

lemma reduce_loop_wf:
  assumes "\<forall>w\<in>set b. length w \<le> length st \<and> length w \<le> length g"
  shows "reduce_loop g st b b =
    (None, filter (\<lambda>w. \<not> (\<exists>i<length w. position_removes g st w i = Inr True)) b)"
proof -
  have "\<forall>w\<in>set b. check_word g st w [0..<length w] =
      Inr (\<exists>i<length w. position_removes g st w i = Inr True)"
  proof
    fix w assume "w \<in> set b"
    then have "\<forall>i\<in>set [0..<length w]. i < length st \<and> i < length g" using assms by auto
    from check_word_total [OF this, of w] show "check_word g st w [0..<length w] =
      Inr (\<exists>i<length w. position_removes g st w i = Inr True)" by (simp add: Bex_def)
  qed
  then have "reduce_loop g st b ([] @ b) =
    (None, [] @ filter (\<lambda>w. \<not> (\<exists>i<length w. position_removes g st w i = Inr True)) b)"
    by (intro reduce_loop_filter) simp_all
  then show ?thesis by simp
qed

lemma reduce_guesses_backup:
  "reduce_guesses decode a (gc, idx, st) =
     (fst (reduce_loop (decode idx (letters a)) st (dictionary_backup a) (dictionary_backup a)),
      a\<lparr>dictionary_backup :=
        snd (reduce_loop (decode idx (letters a)) st (dictionary_backup a) (dictionary_backup a))\<rparr>)"
  by (simp add: reduce_guesses_def split: prod.splits)

text \<open>
  Claim C7. Whatever the candidates, the decoder and the percepts, the candidate list
  that \<^verbatim>\<open>reduce_guesses\<close> leaves is no longer than the one it found and holds only
  words that were in it; this is so also when the method raises, for the list as the
  exception leaves it. When no candidate is longer than the states or than the decoded
  guess, the method returns without raising.
\<close>

theorem reduce_guesses_shrinks:
  "length (dictionary_backup (snd (reduce_guesses decode a (gc, idx, st))))
     \<le> length (dictionary_backup a) \<and>
   set (dictionary_backup (snd (reduce_guesses decode a (gc, idx, st))))
     \<subseteq> set (dictionary_backup a) \<and>
   ((\<forall>w\<in>set (dictionary_backup a).
        length w \<le> length st \<and> length w \<le> length (decode idx (letters a))) \<longrightarrow>
      fst (reduce_guesses decode a (gc, idx, st)) = None)"
proof (intro conjI impI)
  let ?g = "decode idx (letters a)" and ?b = "dictionary_backup a"
  show "length (dictionary_backup (snd (reduce_guesses decode a (gc, idx, st)))) \<le> length ?b"
    using reduce_loop_shrinks [of ?g st ?b ?b] by (simp add: reduce_guesses_backup)
  show "set (dictionary_backup (snd (reduce_guesses decode a (gc, idx, st)))) \<subseteq> set ?b"
    using reduce_loop_shrinks [of ?g st ?b ?b] by (simp add: reduce_guesses_backup)
  assume "\<forall>w\<in>set ?b. length w \<le> length st \<and> length w \<le> length ?g"
  from reduce_loop_wf [OF this]
  show "fst (reduce_guesses decode a (gc, idx, st)) = None"
    by (simp add: reduce_guesses_backup)
qed

text \<open>
  The guess SLATE against the solution TRAIN: three candidates before, no exception.
\<close>

theorem reduce_guesses_shrinks_witness:
  "length (dictionary_backup (snd (reduce_guesses letter_indices_to_word small_agent
      (1, [18, 11, 0, 19, 4], [0, 0, 1, - 1, 0])))) \<le> 3 \<and>
   fst (reduce_guesses letter_indices_to_word small_agent
      (1, [18, 11, 0, 19, 4], [0, 0, 1, - 1, 0])) = None \<and>
   letter_indices_to_word [18, 11, 0, 19, 4] alphabet = ''SLATE''"
  using reduce_guesses_shrinks [of letter_indices_to_word small_agent 1 "[18, 11, 0, 19, 4]"
      "[0, 0, 1, - 1, 0]"]
  by (simp add: small_agent_def init_def letter_indices_to_word_def alphabet_def)

text \<open>
  Claim C1, as the code has it. With the candidates CRANE, SLATE and TRAIN, the guess
  SLATE and the states correct at position 0 and absent elsewhere, \<^verbatim>\<open>reduce_guesses\<close>
  removes all three candidates: CRANE and TRAIN differ from the guess at position 0, and
  SLATE holds the letter L, which is absent at position 1 and occurs once in the guess.
\<close>

theorem reduce_guesses_slate_example:
  "reduce_guesses letter_indices_to_word small_agent (1, [18, 11, 0, 19, 4], [1, 0, 0, 0, 0]) =
     (None, small_agent\<lparr>dictionary_backup := []\<rparr>)"
  by (simp add: reduce_guesses_def small_agent_def init_def letter_indices_to_word_def
      alphabet_def position_removes_def py_index_def upt_rec)

text \<open>The candidate list of that example is not the list of the one word SLATE.\<close>

theorem reduce_guesses_slate_counterexample:
  "letter_indices_to_word [18, 11, 0, 19, 4] (letters small_agent) = ''SLATE'' \<and>
   dictionary_backup small_agent = [''CRANE'', ''SLATE'', ''TRAIN''] \<and>
   dictionary_backup (snd (reduce_guesses letter_indices_to_word small_agent
      (1, [18, 11, 0, 19, 4], [1, 0, 0, 0, 0]))) \<noteq> [''SLATE'']"
  by (simp add: reduce_guesses_def small_agent_def init_def letter_indices_to_word_def
      alphabet_def position_removes_def py_index_def upt_rec)

lemma all_correct_position:
  assumes "i < length W"
  shows "position_removes W (replicate (length W) 1) w i = Inr (W ! i \<noteq> w ! i)"
  using assms by (simp add: position_removes_def py_index_def)

text \<open>
  Claim C5. When the candidates all have the length of a candidate \<open>W\<close>, the decoded
  guess is \<open>W\<close> and every state is correct, \<^verbatim>\<open>reduce_guesses\<close> returns without raising
  and keeps exactly the occurrences of \<open>W\<close>: the set of candidates is the singleton of
  \<open>W\<close>.
\<close>

theorem all_correct_leaves_guess:
  assumes "W \<in> set (dictionary_backup a)"
    and "\<forall>w\<in>set (dictionary_backup a). length w = length W"
    and "decode idx (letters a) = W"
    and "st = replicate (length W) 1"
  shows "reduce_guesses decode a (gc, idx, st) =
           (None, a\<lparr>dictionary_backup := filter (\<lambda>w. w = W) (dictionary_backup a)\<rparr>) \<and>
         set (dictionary_backup (snd (reduce_guesses decode a (gc, idx, st)))) = {W}"
proof -
  let ?b = "dictionary_backup a"
  have wf: "\<forall>w\<in>set ?b. length w \<le> length st \<and> length w \<le> length W"
    using assms(2,4) by simp
  have "filter (\<lambda>w. \<not> (\<exists>i<length w. position_removes W st w i = Inr True)) ?b =
        filter (\<lambda>w. w = W) ?b"
  proof (intro filter_cong refl)
    fix w assume "w \<in> set ?b"
    then have len: "length w = length W" using assms(2) by simp
    have "(\<exists>i<length w. position_removes W st w i = Inr True) = (\<exists>i<length W. W ! i \<noteq> w ! i)"
      using len assms(4) by (auto simp add: all_correct_position)
    also have "\<dots> = (w \<noteq> W)" using len by (auto simp add: list_eq_iff_nth_eq)
    finally show "(\<not> (\<exists>i<length w. position_removes W st w i = Inr True)) = (w = W)" by simp
  qed
  with reduce_loop_wf [OF wf]
  have loop: "reduce_loop W st ?b ?b = (None, filter (\<lambda>w. w = W) ?b)" by simp
  then have eq: "reduce_guesses decode a (gc, idx, st) =
           (None, a\<lparr>dictionary_backup := filter (\<lambda>w. w = W) ?b\<rparr>)"
    using assms(3) by (simp add: reduce_guesses_def)
  moreover have "set (filter (\<lambda>w. w = W) ?b) = {W}" using assms(1) by auto
  ultimately show ?thesis by simp
qed

text \<open>The guess TRAIN, all five states correct.\<close>

theorem all_correct_leaves_guess_witness:
  "''TRAIN'' \<in> set (dictionary_backup small_agent) \<and>
   letter_indices_to_word [19, 17, 0, 8, 13] (letters small_agent) = ''TRAIN'' \<and>
   reduce_guesses letter_indices_to_word small_agent (3, [19, 17, 0, 8, 13], [1, 1, 1, 1, 1]) =
     (None, small_agent\<lparr>dictionary_backup := [''TRAIN'']\<rparr>) \<and>
   set (dictionary_backup (snd (reduce_guesses letter_indices_to_word small_agent
     (3, [19, 17, 0, 8, 13], [1, 1, 1, 1, 1])))) = {''TRAIN''}"
  using all_correct_leaves_guess [of "''TRAIN''" small_agent letter_indices_to_word
      "[19, 17, 0, 8, 13]" "[1, 1, 1, 1, 1]" 3]
  by (simp add: small_agent_def init_def letter_indices_to_word_def alphabet_def)

lemma absent_position:
  assumes "i < length letter_states" and "letter_states ! i = 0" and "i < length in_english"
  shows "position_removes in_english letter_states word i =
     Inr (in_english ! i \<in> set word \<and>
          (count_list in_english (in_english ! i) = 1 \<or> in_english ! i = word ! i))"
  using assms by (simp add: position_removes_def py_index_def)

lemma reduce_guesses_removed:
  assumes red: "reduce_guesses decode a (gc, idx, st) = (None, a')"
    and g: "decode idx (letters a) = g"
    and i: "i < length word"
    and fires: "position_removes g st word i = Inr True"
  shows "word \<notin> set (dictionary_backup a')"
proof
  assume mem: "word \<in> set (dictionary_backup a')"
  let ?b = "dictionary_backup a"
  from red g have loop: "reduce_loop g st ?b ?b = (None, dictionary_backup a')"
    by (auto simp add: reduce_guesses_def split: prod.splits)
  from reduce_loop_is_filter [OF loop] mem
  have "check_word g st word [0..<length word] = Inr False" by simp
  from check_word_False [OF this, of i] i fires show False by simp
qed

text \<open>
  Claim C4. Let the state at position \<open>i\<close> be absent (0) and \<open>L\<close> the guessed letter
  there. The step of the reducer at \<open>i\<close> removes a candidate only if the candidate
  holds \<open>L\<close>. When \<open>L\<close> occurs once in the guess, the step removes exactly the
  candidates that hold \<open>L\<close>; when \<open>L\<close> occurs more than once, exactly those whose
  letter at \<open>i\<close> is \<open>L\<close>. The step does not raise, and a candidate that the step removes
  is not in the list that \<^verbatim>\<open>reduce_guesses\<close> returns.
\<close>

theorem absent_rule:
  assumes "i < length word" and "i < length letter_states" and "letter_states ! i = 0"
    and "i < length in_english" and "L = in_english ! i"
  shows "(position_removes in_english letter_states word i = Inr True \<longrightarrow> L \<in> set word) \<and>
     (count_list in_english L = 1 \<longrightarrow>
        (position_removes in_english letter_states word i = Inr True \<longleftrightarrow> L \<in> set word)) \<and>
     (1 < count_list in_english L \<longrightarrow>
        (position_removes in_english letter_states word i = Inr True \<longleftrightarrow> word ! i = L)) \<and>
     (position_removes in_english letter_states word i = Inr True \<or>
      position_removes in_english letter_states word i = Inr False) \<and>
     (reduce_guesses decode a (gc, idx, letter_states) = (None, a') \<and>
      decode idx (letters a) = in_english \<and>
      position_removes in_english letter_states word i = Inr True \<longrightarrow>
        word \<notin> set (dictionary_backup a'))"
proof -
  have pr: "position_removes in_english letter_states word i =
     Inr (L \<in> set word \<and> (count_list in_english L = 1 \<or> L = word ! i))"
    using absent_position [OF assms(2,3,4)] assms(5) by simp
  have nth: "word ! i \<in> set word" using assms(1) by simp
  have 1: "position_removes in_english letter_states word i = Inr True \<longrightarrow> L \<in> set word"
    using pr by simp
  have 2: "count_list in_english L = 1 \<longrightarrow>
        (position_removes in_english letter_states word i = Inr True \<longleftrightarrow> L \<in> set word)"
    using pr by simp
  have 3: "1 < count_list in_english L \<longrightarrow>
        (position_removes in_english letter_states word i = Inr True \<longleftrightarrow> word ! i = L)"
    using pr nth by auto
  have 4: "position_removes in_english letter_states word i = Inr True \<or>
      position_removes in_english letter_states word i = Inr False"
    using pr by auto
  have 5: "reduce_guesses decode a (gc, idx, letter_states) = (None, a') \<and>
      decode idx (letters a) = in_english \<and>
      position_removes in_english letter_states word i = Inr True \<longrightarrow>
        word \<notin> set (dictionary_backup a')"
    using reduce_guesses_removed [of decode a gc idx letter_states a' in_english i word] assms(1)
    by blast
  from 1 2 3 4 5 show ?thesis by blast
qed


text \<open>
  The guess SLATE against the solution TRAIN: L is absent at position 1 and occurs once
  in the guess, so the candidate SLATE is removed.
\<close>

theorem absent_rule_witness:
  "letter_indices_to_word [18, 11, 0, 19, 4] (letters small_agent) = ''SLATE'' \<and>
   count_list ''SLATE'' CHR ''L'' = 1 \<and>
   position_removes ''SLATE'' [0, 0, 1, - 1, 0] ''SLATE'' 1 = Inr True \<and>
   reduce_guesses letter_indices_to_word small_agent (1, [18, 11, 0, 19, 4], [0, 0, 1, - 1, 0]) =
     (None, small_agent\<lparr>dictionary_backup := [''TRAIN'']\<rparr>) \<and>
   ''SLATE'' \<notin> set (dictionary_backup (small_agent\<lparr>dictionary_backup := [''TRAIN'']\<rparr>))"
  using absent_rule [of 1 "''SLATE''" "[0, 0, 1, - 1, 0]" "''SLATE''" "CHR ''L''"
      letter_indices_to_word small_agent 1 "[18, 11, 0, 19, 4]"
      "small_agent\<lparr>dictionary_backup := [''TRAIN'']\<rparr>"]
  by (simp add: reduce_guesses_def small_agent_def init_def letter_indices_to_word_def
      alphabet_def position_removes_def py_index_def upt_rec)

section \<open>Properties of the scorer\<close>

lemma freq_loop_count:
  "\<forall>w\<in>set ws. pos < length w \<Longrightarrow>
   freq_loop ws c pos f = Inr (f + length (filter (\<lambda>w. w ! pos = c) ws))"
  by (induction ws arbitrary: f) (simp_all add: py_index_def)

lemma probability_fraction:
  assumes "dictionary_backup a \<noteq> []" and "\<forall>w\<in>set (dictionary_backup a). pos < length w"
  shows "probability a c pos = Inr (fl (letter_fraction (dictionary_backup a) c pos))"
  using assms by (simp add: probability_def letter_fraction_def true_div_def freq_loop_count)

lemma entropy_fraction:
  assumes "dictionary_backup a \<noteq> []" and "\<forall>w\<in>set (dictionary_backup a). pos < length w"
  shows "entropy a c pos = Inr (position_entropy (dictionary_backup a) c pos)"
  using probability_fraction [OF assms]
  by (simp add: entropy_def position_entropy_def float_mul_def float_sub_def Let_def)

lemma score_loop_sum:
  assumes "dictionary_backup a \<noteq> []"
    and "\<forall>i\<in>set is. \<forall>w\<in>set (dictionary_backup a). i < length w"
  shows "score_loop a word is s dl =
    Inr (foldl (\<lambda>s i. fl (s + position_entropy (dictionary_backup a) (word ! i) i)) s is,
         dl \<or> (\<exists>i\<in>set is. 1 < count_list word (word ! i)))"
  using assms(2)
proof (induction "is" arbitrary: s dl)
  case Nil
  show ?case by simp
next
  case (Cons i "is")
  have "\<forall>w\<in>set (dictionary_backup a). i < length w" using Cons.prems by simp
  from entropy_fraction [OF assms(1) this]
  show ?case using Cons by (auto simp add: float_add_def)
qed

lemma count_list_le_1_distinct:
  "distinct xs \<longleftrightarrow> (\<forall>x\<in>set xs. count_list xs x \<le> 1)"
proof (induction xs)
  case Nil
  show ?case by simp
next
  case (Cons y ys)
  show ?case
  proof
    assume d: "distinct (y # ys)"
    then have "count_list ys y = 0" by (simp add: count_list_0_iff)
    moreover have "\<forall>x\<in>set ys. count_list ys x \<le> 1" using d Cons.IH by simp
    ultimately show "\<forall>x\<in>set (y # ys). count_list (y # ys) x \<le> 1" using d by auto
  next
    assume h: "\<forall>x\<in>set (y # ys). count_list (y # ys) x \<le> 1"
    then have "count_list ys y = 0" by simp
    then have "y \<notin> set ys" by (simp add: count_list_0_iff)
    moreover have "\<forall>x\<in>set ys. count_list ys x \<le> 1"
    proof
      fix x assume "x \<in> set ys"
      then have "count_list (y # ys) x \<le> 1" using h by simp
      then show "count_list ys x \<le> 1" by (simp split: if_splits)
    qed
    ultimately show "distinct (y # ys)" using Cons.IH by simp
  qed
qed

lemma repeated_letter_iff:
  "(\<exists>i\<in>set [0..<length word]. 1 < count_list word (word ! i)) \<longleftrightarrow> \<not> distinct word"
proof -
  have "(\<exists>i\<in>set [0..<length word]. 1 < count_list word (word ! i)) \<longleftrightarrow>
        (\<exists>x\<in>set word. 1 < count_list word x)"
  proof
    assume "\<exists>i\<in>set [0..<length word]. 1 < count_list word (word ! i)"
    then obtain i where "i < length word" "1 < count_list word (word ! i)" by auto
    then show "\<exists>x\<in>set word. 1 < count_list word x" using nth_mem by blast
  next
    assume "\<exists>x\<in>set word. 1 < count_list word x"
    then obtain x where "x \<in> set word" "1 < count_list word x" by blast
    then obtain i where "i < length word" "word ! i = x" by (auto simp add: in_set_conv_nth)
    with \<open>1 < count_list word x\<close>
    show "\<exists>i\<in>set [0..<length word]. 1 < count_list word (word ! i)" by auto
  qed
  also have "\<dots> \<longleftrightarrow> \<not> distinct word"
    by (auto simp add: count_list_le_1_distinct not_le)
  finally show ?thesis .
qed

lemma score_total:
  assumes "dictionary_backup a \<noteq> []"
    and "\<forall>c\<in>set (dictionary_backup a). length word \<le> length c"
  shows "\<exists>s. score a word = Inr s"
proof -
  have "\<forall>i\<in>set [0..<length word]. \<forall>w\<in>set (dictionary_backup a). i < length w"
    using assms(2) by fastforce
  from score_loop_sum [OF assms(1) this, of word 0 False]
  show ?thesis by (simp add: score_def)
qed

text \<open>
  Claim C8, as the code has it. For a non-empty candidate list whose words are at least as
  long as \<open>word\<close>, \<^verbatim>\<open>score\<close> returns the sum over the positions \<open>i\<close> of \<open>word\<close> of
  \<open>p * (1 - p)\<close> evaluated in doubles: \<open>p\<close> is the fraction of the candidates that carry the
  letter of \<open>word\<close> at \<open>i\<close>, rounded; the difference, the product and every partial sum,
  taken from 0 and from left to right, are rounded; and the sum is multiplied by the
  double nearest to 0.9, and rounded, exactly when some letter occurs more than once in
  \<open>word\<close>.
\<close>

theorem score_formula:
  assumes "dictionary_backup a \<noteq> []"
    and "\<forall>c\<in>set (dictionary_backup a). length word \<le> length c"
  shows "score a word =
     Inr (if \<not> distinct word
          then fl (foldl (\<lambda>s i. fl (s + position_entropy (dictionary_backup a) (word ! i) i))
                     0 [0..<length word] * fl (9 / 10))
          else foldl (\<lambda>s i. fl (s + position_entropy (dictionary_backup a) (word ! i) i))
                 0 [0..<length word])"
proof -
  have "\<forall>i\<in>set [0..<length word]. \<forall>w\<in>set (dictionary_backup a). i < length w"
    using assms(2) by fastforce
  from score_loop_sum [OF assms(1) this, of word 0 False]
  have "score_loop a word [0..<length word] 0 False =
      Inr (foldl (\<lambda>s i. fl (s + position_entropy (dictionary_backup a) (word ! i) i))
             0 [0..<length word], \<not> distinct word)"
    by (simp only: repeated_letter_iff) simp
  then show ?thesis by (simp add: score_def float_mul_def)
qed

lemma argmax_loop_first_max:
  assumes "i = length pre" and "best < i" and "bv = (pre @ ys) ! best"
    and "\<forall>j<i. (pre @ ys) ! j \<le> bv" and "\<forall>j<best. (pre @ ys) ! j < bv"
  shows "argmax_loop ys i best bv < length (pre @ ys) \<and>
         (\<forall>j<length (pre @ ys). (pre @ ys) ! j \<le> (pre @ ys) ! argmax_loop ys i best bv) \<and>
         (\<forall>j<argmax_loop ys i best bv. (pre @ ys) ! j < (pre @ ys) ! argmax_loop ys i best bv)"
  using assms
proof (induction ys arbitrary: pre i best bv)
  case Nil
  then show ?case by simp
next
  case (Cons y ys)
  have split: "pre @ y # ys = (pre @ [y]) @ ys" by simp
  have yi: "(pre @ y # ys) ! i = y" using Cons.prems(1) by simp
  show ?case
  proof (cases "bv < y")
    case True
    have "argmax_loop ys (Suc i) i y < length ((pre @ [y]) @ ys) \<and>
         (\<forall>j<length ((pre @ [y]) @ ys).
            ((pre @ [y]) @ ys) ! j \<le> ((pre @ [y]) @ ys) ! argmax_loop ys (Suc i) i y) \<and>
         (\<forall>j<argmax_loop ys (Suc i) i y.
            ((pre @ [y]) @ ys) ! j < ((pre @ [y]) @ ys) ! argmax_loop ys (Suc i) i y)"
    proof (rule Cons.IH)
      show "Suc i = length (pre @ [y])" using Cons.prems(1) by simp
      show "i < Suc i" by simp
      show "y = ((pre @ [y]) @ ys) ! i" using yi by simp
      show "\<forall>j<Suc i. ((pre @ [y]) @ ys) ! j \<le> y"
      proof (intro allI impI)
        fix j assume "j < Suc i"
        then consider "j < i" | "j = i" by linarith
        then show "((pre @ [y]) @ ys) ! j \<le> y"
        proof cases
          case 1
          then have "(pre @ y # ys) ! j \<le> bv" using Cons.prems(4) by blast
          then show ?thesis using True by simp
        next
          case 2
          then show ?thesis using yi by simp
        qed
      qed
      show "\<forall>j<i. ((pre @ [y]) @ ys) ! j < y"
      proof (intro allI impI)
        fix j assume "j < i"
        then have "(pre @ y # ys) ! j \<le> bv" using Cons.prems(4) by blast
        then show "((pre @ [y]) @ ys) ! j < y" using True by simp
      qed
    qed
    then show ?thesis using True by simp
  next
    case False
    have "argmax_loop ys (Suc i) best bv < length ((pre @ [y]) @ ys) \<and>
         (\<forall>j<length ((pre @ [y]) @ ys).
            ((pre @ [y]) @ ys) ! j \<le> ((pre @ [y]) @ ys) ! argmax_loop ys (Suc i) best bv) \<and>
         (\<forall>j<argmax_loop ys (Suc i) best bv.
            ((pre @ [y]) @ ys) ! j < ((pre @ [y]) @ ys) ! argmax_loop ys (Suc i) best bv)"
    proof (rule Cons.IH)
      show "Suc i = length (pre @ [y])" using Cons.prems(1) by simp
      show "best < Suc i" using Cons.prems(2) by simp
      show "bv = ((pre @ [y]) @ ys) ! best" using Cons.prems(3) by simp
      show "\<forall>j<Suc i. ((pre @ [y]) @ ys) ! j \<le> bv"
      proof (intro allI impI)
        fix j assume "j < Suc i"
        then consider "j < i" | "j = i" by linarith
        then show "((pre @ [y]) @ ys) ! j \<le> bv"
        proof cases
          case 1
          then show ?thesis using Cons.prems(4) by simp
        next
          case 2
          then show ?thesis using yi False by simp
        qed
      qed
      show "\<forall>j<best. ((pre @ [y]) @ ys) ! j < bv" using Cons.prems(5) by simp
    qed
    then show ?thesis using False by simp
  qed
qed

lemma argmax_first_max:
  assumes "argmax xs = Inr k"
  shows "k < length xs \<and> (\<forall>j<length xs. xs ! j \<le> xs ! k) \<and> (\<forall>j<k. xs ! j < xs ! k)"
proof (cases xs)
  case Nil
  then show ?thesis using assms by (simp add: argmax_def)
next
  case (Cons x ys)
  then have k: "k = argmax_loop ys 1 0 x" using assms by (simp add: argmax_def)
  have "argmax_loop ys 1 0 x < length ([x] @ ys) \<and>
         (\<forall>j<length ([x] @ ys). ([x] @ ys) ! j \<le> ([x] @ ys) ! argmax_loop ys 1 0 x) \<and>
         (\<forall>j<argmax_loop ys 1 0 x. ([x] @ ys) ! j < ([x] @ ys) ! argmax_loop ys 1 0 x)"
    by (rule argmax_loop_first_max) simp_all
  then show ?thesis using k Cons by simp
qed

lemma argmax_total: "xs \<noteq> [] \<Longrightarrow> \<exists>k. argmax xs = Inr k"
  by (cases xs) (simp_all add: argmax_def)

lemma argmax_empty: "argmax [] = Inl ValueError"
  by (simp add: argmax_def)

lemma scores_loop_nth:
  "scores_loop a ws = Inr ss \<Longrightarrow>
   length ss = length ws \<and> (\<forall>j<length ws. score a (ws ! j) = Inr (ss ! j))"
proof (induction ws arbitrary: ss)
  case Nil
  then show ?case by simp
next
  case (Cons w ws)
  from Cons.prems obtain s ss' where s: "score a w = Inr s" and ss': "scores_loop a ws = Inr ss'"
    and eq: "ss = s # ss'"
    by (auto split: sum.splits)
  from Cons.IH [OF ss'] have ih: "length ss' = length ws"
    "\<forall>j<length ws. score a (ws ! j) = Inr (ss' ! j)" by simp_all
  show ?case
  proof (intro conjI allI impI)
    show "length ss = length (w # ws)" using eq ih by simp
    fix j assume "j < length (w # ws)"
    then show "score a ((w # ws) ! j) = Inr (ss ! j)" using s eq ih by (cases j) simp_all
  qed
qed

lemma scores_loop_total:
  "\<forall>w\<in>set ws. \<exists>s. score a w = Inr s \<Longrightarrow>
   \<exists>ss. scores_loop a ws = Inr ss \<and> length ss = length ws"
proof (induction ws)
  case Nil
  show ?case by simp
next
  case (Cons w ws)
  then obtain s ss where "score a w = Inr s" "scores_loop a ws = Inr ss" "length ss = length ws"
    by auto
  then show ?case by simp
qed

lemma calculate_scores_total:
  assumes "dictionary_backup a \<noteq> []" and "\<forall>w\<in>set (dictionary_backup a). length w = n"
  shows "\<exists>scores. calculate_scores a = Inr scores \<and> length scores = length (dictionary_backup a)"
proof -
  have "\<forall>w\<in>set (dictionary_backup a). \<exists>s. score a w = Inr s"
  proof
    fix w assume "w \<in> set (dictionary_backup a)"
    then have "\<forall>c\<in>set (dictionary_backup a). length w \<le> length c" using assms(2) by simp
    from score_total [OF assms(1) this] show "\<exists>s. score a w = Inr s" .
  qed
  from scores_loop_total [OF this] show ?thesis by (simp add: calculate_scores_def)
qed

section \<open>Properties of the stuck-position heuristic\<close>

lemma index_from_member: "index_from xs v k = Inr j \<Longrightarrow> v \<in> set xs"
  by (induction xs arbitrary: k) (auto split: if_splits)

lemma index_from_absent: "v \<notin> set xs \<Longrightarrow> index_from xs v k = Inl ValueError"
  by (induction xs arbitrary: k) auto

lemma smart_guess_needs_absent:
  "smart_guess a (gc, idx, st) = Inr w \<Longrightarrow> 0 \<in> set st"
  by (auto simp add: smart_guess_def py_list_index_def split: sum.splits
      dest: index_from_member)

lemma smart_guess_no_absent:
  "0 \<notin> set st \<Longrightarrow> smart_guess a (gc, idx, st) = Inl ValueError"
  by (simp add: smart_guess_def py_list_index_def index_from_absent)

lemma py_index_member: "py_index xs i = Inr x \<Longrightarrow> x \<in> set xs"
  by (auto simp add: py_index_def split: if_splits)

lemma smart_guess_member:
  "smart_guess a p = Inr w \<Longrightarrow> w \<in> set (dictionary a)"
  by (auto simp add: smart_guess_def split: prod.splits sum.splits dest: py_index_member)

lemma count_two_le_length:
  "a \<noteq> b \<Longrightarrow> count_list xs a + count_list xs b \<le> length xs"
  by (induction xs) auto

lemma one_misplaced_no_absent:
  assumes "int (count_list st 1) = int (length st) - 1" and "- 1 \<in> set st"
  shows "(0::int) \<notin> set st"
proof
  assume "(0::int) \<in> set st"
  then obtain xs ys where st: "st = xs @ 0 # ys" by (auto simp add: in_set_conv_decomp)
  have m: "- 1 \<in> set (xs @ ys)" using assms(2) st by auto
  then have "count_list (xs @ ys) (- 1) \<noteq> 0" by (simp only: count_list_0_iff not_not)
  then have "0 < count_list (xs @ ys) (- 1)" by simp
  moreover have "count_list (xs @ ys) 1 + count_list (xs @ ys) (- 1) \<le> length (xs @ ys)"
    by (rule count_two_le_length) simp
  moreover have "count_list st 1 = count_list (xs @ ys) 1" using st by simp
  moreover have "length st = Suc (length (xs @ ys))" using st by simp
  ultimately show False using assms(1) by simp
qed

text \<open>
  Claim C10. When the test for the stuck position succeeds, the choice of the guess and
  \<^verbatim>\<open>smart_guess\<close> return a guess only if some state is absent (0). With no absent
  state, and so when the states have the word length and the one state that is not correct
  is present-misplaced (-1), \<^verbatim>\<open>letter_states.index(0)\<close> raises ValueError and no guess
  is produced.
\<close>

theorem stuck_needs_absent_state:
  assumes "stuck_position a (gc, idx, st)"
  shows "(choose_guess a (gc, idx, st) = Inr r \<longrightarrow> 0 \<in> set st) \<and>
         (smart_guess a (gc, idx, st) = Inr w \<longrightarrow> 0 \<in> set st) \<and>
         (0 \<notin> set st \<longrightarrow>
            smart_guess a (gc, idx, st) = Inl ValueError \<and>
            choose_guess a (gc, idx, st) = Inl ValueError) \<and>
         (int (length st) = word_length a \<and> - 1 \<in> set st \<longrightarrow>
            smart_guess a (gc, idx, st) = Inl ValueError \<and>
            choose_guess a (gc, idx, st) = Inl ValueError)"
proof -
  have nonempty: "0 < length (dictionary_backup a)"
    using assms by (auto simp add: stuck_position_def)
  have cg: "choose_guess a (gc, idx, st) =
      (case smart_guess a (gc, idx, st) of Inl e \<Rightarrow> Inl e | Inr guess \<Rightarrow> Inr (Some guess))"
    using assms nonempty by (simp add: choose_guess_def)
  have 1: "choose_guess a (gc, idx, st) = Inr r \<longrightarrow> 0 \<in> set st"
    using cg by (auto split: sum.splits dest: smart_guess_needs_absent)
  have 2: "smart_guess a (gc, idx, st) = Inr w \<longrightarrow> 0 \<in> set st"
    by (auto dest: smart_guess_needs_absent)
  have 3: "0 \<notin> set st \<longrightarrow>
            smart_guess a (gc, idx, st) = Inl ValueError \<and>
            choose_guess a (gc, idx, st) = Inl ValueError"
    using cg by (simp add: smart_guess_no_absent)
  have "int (length st) = word_length a \<and> - 1 \<in> set st \<longrightarrow> 0 \<notin> set st"
  proof
    assume h: "int (length st) = word_length a \<and> - 1 \<in> set st"
    have "int (count_list st 1) = word_length a - 1"
      using assms by (simp add: stuck_position_def green_counter_def)
    with h have "int (count_list st 1) = int (length st) - 1" by simp
    with h show "0 \<notin> set st" using one_misplaced_no_absent by blast
  qed
  with 3 have 4: "int (length st) = word_length a \<and> - 1 \<in> set st \<longrightarrow>
            smart_guess a (gc, idx, st) = Inl ValueError \<and>
            choose_guess a (gc, idx, st) = Inl ValueError" by blast
  from 1 2 3 4 show ?thesis by blast
qed

text \<open>
  The candidates BATTY, CATTY and FATTY after the guess TATTY with the first state
  present-misplaced and the other four correct: the call raises ValueError.
\<close>

theorem stuck_needs_absent_state_witness:
  "stuck_position
     (batty_agent\<lparr>dictionary_backup := [''BATTY'', ''CATTY'', ''FATTY''], last_guess_counter := 1\<rparr>)
     (1, [19, 0, 19, 19, 24], [- 1, 1, 1, 1, 1]) \<and>
   choose_guess
     (batty_agent\<lparr>dictionary_backup := [''BATTY'', ''CATTY'', ''FATTY''], last_guess_counter := 1\<rparr>)
     (1, [19, 0, 19, 19, 24], [- 1, 1, 1, 1, 1]) = Inl ValueError \<and>
   AgentFunction letter_indices_to_word True batty_agent
     (1, [19, 0, 19, 19, 24], [- 1, 1, 1, 1, 1]) =
     (Inl ValueError, True,
      batty_agent\<lparr>dictionary_backup := [''BATTY'', ''CATTY'', ''FATTY''], last_guess_counter := 1\<rparr>)"
  using stuck_needs_absent_state [of
      "batty_agent\<lparr>dictionary_backup := [''BATTY'', ''CATTY'', ''FATTY''], last_guess_counter := 1\<rparr>"
      1 "[19, 0, 19, 19, 24]" "[- 1, 1, 1, 1, 1]"]
  by (simp add: batty_agent_def init_def alphabet_def stuck_position_def green_counter_def
      AgentFunction_def get_first_guess_def run_once_def reduce_guesses_def
      letter_indices_to_word_def position_removes_def py_index_def upt_rec drop_rejected_def)

text \<open>
  What the loop over the characters of a word leaves: the number of its letters among
  the possible ones, and a flag that tells about the last letter only.
\<close>

lemma smart_chars_last:
  "smart_chars possible word cs s dl =
     (s + length (filter (\<lambda>c. c \<in> set possible) cs),
      if cs = [] then dl else Some (last cs \<in> set possible \<and> 1 < count_list word (last cs)))"
  by (induction cs arbitrary: s dl) auto

lemma smart_scores_head:
  assumes "word \<noteq> []"
  shows "smart_scores possible (word # ws) dl =
     (case smart_scores possible ws
             (Some (last word \<in> set possible \<and> 1 < count_list word (last word))) of
        Inl e \<Rightarrow> Inl e
      | Inr ss \<Rightarrow>
          Inr ((if last word \<in> set possible \<and> 1 < count_list word (last word)
                then float_mul (real (length (filter (\<lambda>c. c \<in> set possible) word)))
                       (fl (1 / 10))
                else real (length (filter (\<lambda>c. c \<in> set possible) word))) # ss))"
  using assms by (auto simp add: smart_chars_last)

section \<open>Properties of AgentFunction\<close>

subsection \<open>Scores depend on the candidates only\<close>

lemma probability_backup:
  "dictionary_backup a = dictionary_backup a' \<Longrightarrow> probability a c pos = probability a' c pos"
  by (simp add: probability_def split: sum.splits)

lemma score_loop_backup:
  "dictionary_backup a = dictionary_backup a' \<Longrightarrow>
   score_loop a word is s dl = score_loop a' word is s dl"
  by (induction "is" arbitrary: s dl)
     (simp_all add: entropy_def probability_backup [of a a'] split: sum.splits)

lemma score_backup:
  "dictionary_backup a = dictionary_backup a' \<Longrightarrow> score a word = score a' word"
  by (simp add: score_def score_loop_backup [of a a'])

lemma scores_loop_backup:
  "dictionary_backup a = dictionary_backup a' \<Longrightarrow> scores_loop a ws = scores_loop a' ws"
  by (induction ws) (simp_all add: score_backup [of a a'] split: sum.splits)

lemma calculate_scores_backup:
  "dictionary_backup a = dictionary_backup a' \<Longrightarrow> calculate_scores a = calculate_scores a'"
  by (simp add: calculate_scores_def scores_loop_backup [of a a'])

subsection \<open>What the steps of a call change\<close>

lemma get_first_guess_changes:
  "get_first_guess hr a = (r, hr', a') \<Longrightarrow> \<exists>k. a' = a\<lparr>first_guess_index := k\<rparr>"
proof -
  assume h: "get_first_guess hr a = (r, hr', a')"
  show ?thesis
  proof (cases hr)
    case True
    then have "a' = a" using h by (simp add: get_first_guess_def run_once_def)
    then have "a' = a\<lparr>first_guess_index := first_guess_index a\<rparr>" by simp
    then show ?thesis by blast
  next
    case False
    then have "a' = snd (get_first_guess_body a)"
      using h by (auto simp add: get_first_guess_def run_once_def split: prod.splits)
    moreover have "snd (get_first_guess_body a) = a \<or>
        (\<exists>k. snd (get_first_guess_body a) = a\<lparr>first_guess_index := k\<rparr>)"
      by (auto simp add: get_first_guess_body_def split: sum.splits)
    ultimately have "a' = a\<lparr>first_guess_index := first_guess_index a\<rparr> \<or>
        (\<exists>k. a' = a\<lparr>first_guess_index := k\<rparr>)" by auto
    then show ?thesis by blast
  qed
qed

lemma get_first_guess_has_run:
  "get_first_guess True a = (None, True, a)"
  by (simp add: get_first_guess_def run_once_def)

lemma drop_rejected_changes:
  "drop_rejected a gc = (r, a') \<Longrightarrow> \<exists>b. a' = a\<lparr>dictionary_backup := b\<rparr>"
proof -
  assume h: "drop_rejected a gc = (r, a')"
  have "a' = a \<or> (\<exists>b. a' = a\<lparr>dictionary_backup := b\<rparr>)"
    using h by (auto simp add: drop_rejected_def split: if_splits sum.splits)
  moreover have "a = a\<lparr>dictionary_backup := dictionary_backup a\<rparr>" by simp
  ultimately show ?thesis by metis
qed

lemma choose_guess_cases:
  assumes "choose_guess a p = Inr r"
  shows "(dictionary_backup a = [] \<and> r = None) \<or>
         (dictionary_backup a \<noteq> [] \<and> stuck_position a p \<and>
            (\<exists>w. r = Some w \<and> w \<in> set (dictionary a))) \<or>
         (dictionary_backup a \<noteq> [] \<and> \<not> stuck_position a p \<and>
            (\<exists>w. r = Some w \<and> w \<in> set (dictionary_backup a)))"
proof (cases "dictionary_backup a = []")
  case True
  then show ?thesis using assms by (simp add: choose_guess_def)
next
  case False
  show ?thesis
  proof (cases "stuck_position a p")
    case True
    then obtain w where "smart_guess a p = Inr w" "r = Some w"
      using assms False by (auto simp add: choose_guess_def split: sum.splits)
    then show ?thesis using False True smart_guess_member [of a p w] by blast
  next
    case nostuck: False
    then obtain k w where "py_index (dictionary_backup a) k = Inr w" "r = Some w"
      using assms False by (auto simp add: choose_guess_def split: sum.splits)
    then show ?thesis using False nostuck py_index_member [of "dictionary_backup a" k w] by blast
  qed
qed

text \<open>A call on a turn other than 0 that returns has gone through the four steps.\<close>

lemma AgentFunction_turn:
  assumes "gc \<noteq> 0" and "AgentFunction decode hr a (gc, idx, st) = (Inr r, hr', a')"
  shows "\<exists>a1 a2.
      get_first_guess hr (a\<lparr>last_guess_counter := last_guess_counter a + 1\<rparr>) = (None, hr', a1) \<and>
      reduce_guesses decode a1 (gc, idx, st) = (None, a2) \<and>
      drop_rejected a2 gc = (None, a') \<and>
      choose_guess a' (gc, idx, st) = Inr r"
  using assms
  by (auto simp add: AgentFunction_def split: prod.splits option.splits)

lemma AgentFunction_turn0:
  assumes "AgentFunction decode hr a (0, idx, st) = (Inr r, hr', a')"
  shows "\<exists>a1 w.
      get_first_guess hr (a\<lparr>last_guess_counter := last_guess_counter a + 1\<rparr>) = (None, hr', a1) \<and>
      a' = a1\<lparr>last_guess_counter := 0, dictionary_backup := dictionary a1\<rparr> \<and>
      py_index (dictionary a1) (first_guess_index a1) = Inr w \<and> r = Some w"
  using assms
  by (auto simp add: AgentFunction_def Let_def split: prod.splits option.splits sum.splits)

text \<open>
  Claim C3, as the code has it. Whenever a call of \<^verbatim>\<open>AgentFunction\<close> returns, with the
  agent \<open>a'\<close> as the call leaves it: on a turn other than 0 with candidates left, the
  returned value is a word of the dictionary when the stuck-position test holds, and a
  word of the candidate list of \<open>a'\<close> when it does not; on turn 0 it is a word of the
  candidate list, which is then the dictionary. With no candidate left the call returns
  \<^verbatim>\<open>None\<close>, not a word. The dictionary is never changed.
\<close>

theorem AgentFunction_guess_member:
  assumes "AgentFunction decode hr a (gc, idx, st) = (Inr r, hr', a')"
  shows "dictionary a' = dictionary a \<and>
     (gc \<noteq> 0 \<and> dictionary_backup a' \<noteq> [] \<and> stuck_position a' (gc, idx, st) \<longrightarrow>
        (\<exists>w. r = Some w \<and> w \<in> set (dictionary a'))) \<and>
     (gc \<noteq> 0 \<and> dictionary_backup a' \<noteq> [] \<and> \<not> stuck_position a' (gc, idx, st) \<longrightarrow>
        (\<exists>w. r = Some w \<and> w \<in> set (dictionary_backup a'))) \<and>
     (gc \<noteq> 0 \<and> dictionary_backup a' = [] \<longrightarrow> r = None) \<and>
     (gc = 0 \<longrightarrow> (\<exists>w. r = Some w \<and> w \<in> set (dictionary_backup a') \<and>
        dictionary_backup a' = dictionary a))"
proof (cases "gc = 0")
  case True
  from AgentFunction_turn0 [of decode hr a idx st r hr' a'] assms True
  obtain a1 w where g: "get_first_guess hr (a\<lparr>last_guess_counter := last_guess_counter a + 1\<rparr>)
        = (None, hr', a1)"
    and a': "a' = a1\<lparr>last_guess_counter := 0, dictionary_backup := dictionary a1\<rparr>"
    and w: "py_index (dictionary a1) (first_guess_index a1) = Inr w" "r = Some w"
    by blast
  from get_first_guess_changes [OF g] have d: "dictionary a1 = dictionary a" by auto
  have "w \<in> set (dictionary a1)" by (rule py_index_member [OF w(1)])
  then show ?thesis using True a' d w by simp
next
  case False
  from AgentFunction_turn [OF False assms]
  obtain a1 a2 where g: "get_first_guess hr (a\<lparr>last_guess_counter := last_guess_counter a + 1\<rparr>)
        = (None, hr', a1)"
    and red: "reduce_guesses decode a1 (gc, idx, st) = (None, a2)"
    and dr: "drop_rejected a2 gc = (None, a')"
    and ch: "choose_guess a' (gc, idx, st) = Inr r"
    by blast
  from get_first_guess_changes [OF g] have "dictionary a1 = dictionary a" by auto
  moreover from red have "dictionary a2 = dictionary a1"
    by (auto simp add: reduce_guesses_backup)
  moreover from drop_rejected_changes [OF dr] have "dictionary a' = dictionary a2" by auto
  ultimately have d: "dictionary a' = dictionary a" by simp
  from choose_guess_cases [OF ch] d False show ?thesis by auto
qed

subsection \<open>The rejected guess\<close>

lemma remove1_nth_first:
  assumes "k < length xs" and "\<forall>j<k. xs ! j \<noteq> xs ! k"
  shows "remove1 (xs ! k) xs = take k xs @ drop (Suc k) xs"
proof -
  have "xs ! k \<notin> set (take k xs)"
  proof
    assume "xs ! k \<in> set (take k xs)"
    then obtain j where "j < length (take k xs)" "take k xs ! j = xs ! k"
      by (auto simp add: in_set_conv_nth)
    then have "j < k" "xs ! j = xs ! k" using assms(1) by simp_all
    then show False using assms(2) by blast
  qed
  moreover have "xs = take k xs @ xs ! k # drop (Suc k) xs"
    using assms(1) by (rule id_take_nth_drop)
  ultimately show ?thesis by (metis remove1.simps(2) remove1_append)
qed

lemma drop_rejected_agree:
  "gc = last_guess_counter a \<Longrightarrow> drop_rejected a gc = (None, a)"
  by (simp add: drop_rejected_def)

lemma drop_rejected_disagree:
  assumes "gc \<noteq> last_guess_counter a" and "drop_rejected a gc = (None, a')"
  shows "\<exists>scores k. calculate_scores a = Inr scores \<and> argmax scores = Inr k \<and>
      k < length (dictionary_backup a) \<and>
      a' = a\<lparr>dictionary_backup := remove1 (dictionary_backup a ! k) (dictionary_backup a)\<rparr>"
  using assms
  by (auto simp add: drop_rejected_def py_index_def split: sum.splits if_splits)

lemma drop_rejected_removes:
  assumes "dictionary_backup a \<noteq> []" and "\<forall>w\<in>set (dictionary_backup a). length w = n"
    and "gc \<noteq> last_guess_counter a"
  shows "\<exists>scores k.
     calculate_scores a = Inr scores \<and> length scores = length (dictionary_backup a) \<and>
     (\<forall>j<length (dictionary_backup a). score a (dictionary_backup a ! j) = Inr (scores ! j)) \<and>
     k < length (dictionary_backup a) \<and>
     (\<forall>j<length (dictionary_backup a). scores ! j \<le> scores ! k) \<and>
     (\<forall>j<k. scores ! j < scores ! k) \<and>
     drop_rejected a gc =
       (None, a\<lparr>dictionary_backup := take k (dictionary_backup a) @
                                        drop (Suc k) (dictionary_backup a)\<rparr>)"
proof -
  let ?b = "dictionary_backup a"
  from calculate_scores_total [OF assms(1,2)]
  obtain scores where sc: "calculate_scores a = Inr scores"
    and len: "length scores = length ?b" by blast
  then have "scores \<noteq> []" using assms(1) by auto
  from argmax_total [OF this] obtain k where am: "argmax scores = Inr k" by blast
  from argmax_first_max [OF am] len have k: "k < length ?b"
    and mx: "\<forall>j<length ?b. scores ! j \<le> scores ! k" and fm: "\<forall>j<k. scores ! j < scores ! k"
    by simp_all
  from sc have "scores_loop a ?b = Inr scores" by (simp add: calculate_scores_def)
  from scores_loop_nth [OF this]
  have nth: "\<forall>j<length ?b. score a (?b ! j) = Inr (scores ! j)" by simp
  have "\<forall>j<k. ?b ! j \<noteq> ?b ! k"
  proof (intro allI impI)
    fix j assume jk: "j < k"
    then have "scores ! j \<noteq> scores ! k" using fm by fastforce
    moreover have "score a (?b ! j) = Inr (scores ! j)" using nth jk k by simp
    moreover have "score a (?b ! k) = Inr (scores ! k)" using nth k by simp
    ultimately show "?b ! j \<noteq> ?b ! k" by auto
  qed
  from remove1_nth_first [OF k this]
  have rm: "remove1 (?b ! k) ?b = take k ?b @ drop (Suc k) ?b" .
  have mem: "?b ! k \<in> set ?b" using k by simp
  have "drop_rejected a gc = (None, a\<lparr>dictionary_backup := take k ?b @ drop (Suc k) ?b\<rparr>)"
    using assms(3) sc am k mem rm by (simp add: drop_rejected_def py_index_def)
  with sc len nth k mx fm show ?thesis by blast
qed

lemma get_first_guess_total:
  assumes "hr \<or> (dictionary_backup a \<noteq> [] \<and> (\<forall>w\<in>set (dictionary_backup a). length w = n))"
  shows "\<exists>k0. get_first_guess hr a = (None, True, a\<lparr>first_guess_index := k0\<rparr>)"
proof (cases hr)
  case True
  have "a = a\<lparr>first_guess_index := first_guess_index a\<rparr>" by simp
  then have "get_first_guess hr a = (None, True, a\<lparr>first_guess_index := first_guess_index a\<rparr>)"
    using True by (simp add: get_first_guess_has_run)
  then show ?thesis by blast
next
  case False
  then have ne: "dictionary_backup a \<noteq> []" and len: "\<forall>w\<in>set (dictionary_backup a). length w = n"
    using assms by simp_all
  from calculate_scores_total [OF ne len]
  obtain scores where sc: "calculate_scores a = Inr scores"
    and l: "length scores = length (dictionary_backup a)" by blast
  then have "scores \<noteq> []" using ne by auto
  from argmax_total [OF this] obtain k where "argmax scores = Inr k" by blast
  then have "get_first_guess hr a = (None, True, a\<lparr>first_guess_index := k\<rparr>)"
    using False sc by (simp add: get_first_guess_def run_once_def get_first_guess_body_def)
  then show ?thesis by blast
qed

text \<open>
  Claim C9, as the code has it. Take a call on a turn other than 0, on candidates of one
  length \<open>n\<close> with \<open>n\<close> states and a decoded guess of length \<open>n\<close>, and let \<open>b\<close> be the
  candidate list that the reducer leaves. When the percepts' counter differs from the
  agent's counter (incremented at the start of the call) and \<open>b\<close> is not empty, the call
  takes out of \<open>b\<close> its element at \<open>k\<close>, the first position at which the scores of the words
  of \<open>b\<close> against \<open>b\<close> are maximal, which leaves one word less, and then chooses the guess on
  the agent with the shortened list. When the counters agree, the guess is chosen on the
  agent with the list \<open>b\<close>.
\<close>

theorem rejected_guess_removed:
  assumes "gc \<noteq> 0"
    and "\<forall>w\<in>set (dictionary_backup a). length w = n"
    and "length st = n" and "length (decode idx (letters a)) = n"
    and "b = dictionary_backup (snd (reduce_guesses decode a (gc, idx, st)))"
  shows "(gc \<noteq> last_guess_counter a + 1 \<and> b \<noteq> [] \<longrightarrow>
        (\<exists>scores k a'.
            calculate_scores (a\<lparr>dictionary_backup := b\<rparr>) = Inr scores \<and>
            length scores = length b \<and>
            (\<forall>j<length b. score (a\<lparr>dictionary_backup := b\<rparr>) (b ! j) = Inr (scores ! j)) \<and>
            k < length b \<and>
            (\<forall>j<length b. scores ! j \<le> scores ! k) \<and>
            (\<forall>j<k. scores ! j < scores ! k) \<and>
            dictionary_backup a' = take k b @ drop (Suc k) b \<and>
            Suc (length (dictionary_backup a')) = length b \<and>
            AgentFunction decode hr a (gc, idx, st) = (choose_guess a' (gc, idx, st), True, a'))) \<and>
     (gc = last_guess_counter a + 1 \<and> (hr \<or> dictionary_backup a \<noteq> []) \<longrightarrow>
        (\<exists>a'. dictionary_backup a' = b \<and>
            AgentFunction decode hr a (gc, idx, st) = (choose_guess a' (gc, idx, st), True, a')))"
proof -
  let ?a0 = "a\<lparr>last_guess_counter := last_guess_counter a + 1\<rparr>"
  let ?g = "decode idx (letters a)"
  have wf: "\<forall>w\<in>set (dictionary_backup a). length w \<le> length st \<and> length w \<le> length ?g"
    using assms(2,3,4) by simp
  have b: "b = filter (\<lambda>w. \<not> (\<exists>i<length w. position_removes ?g st w i = Inr True))
      (dictionary_backup a)"
    using reduce_loop_wf [OF wf] assms(5) by (simp add: reduce_guesses_backup)
  have bn: "\<forall>w\<in>set b. length w = n" using b assms(2) by simp
  have steps: "\<exists>a2. dictionary_backup a2 = b \<and> last_guess_counter a2 = last_guess_counter a + 1 \<and>
      get_first_guess hr ?a0 = (None, True, a2\<lparr>dictionary_backup := dictionary_backup a\<rparr>) \<and>
      reduce_guesses decode (a2\<lparr>dictionary_backup := dictionary_backup a\<rparr>) (gc, idx, st) =
        (None, a2)"
    if ok: "hr \<or> dictionary_backup a \<noteq> []"
  proof -
    have "hr \<or> (dictionary_backup ?a0 \<noteq> [] \<and> (\<forall>w\<in>set (dictionary_backup ?a0). length w = n))"
      using ok assms(2) by auto
    from get_first_guess_total [OF this]
    obtain k0 where g: "get_first_guess hr ?a0 = (None, True, ?a0\<lparr>first_guess_index := k0\<rparr>)"
      by blast
    let ?a1 = "?a0\<lparr>first_guess_index := k0\<rparr>"
    have "reduce_guesses decode ?a1 (gc, idx, st) = (None, ?a1\<lparr>dictionary_backup := b\<rparr>)"
      using reduce_loop_wf [OF wf] b by (simp add: reduce_guesses_backup)
    moreover have "(?a1\<lparr>dictionary_backup := b\<rparr>)\<lparr>dictionary_backup := dictionary_backup a\<rparr> = ?a1"
      by simp
    ultimately show ?thesis using g
      by (intro exI [of _ "?a1\<lparr>dictionary_backup := b\<rparr>"]) simp
  qed
  have unfold: "AgentFunction decode hr a (gc, idx, st) = (choose_guess a3 (gc, idx, st), True, a3)"
    if "get_first_guess hr ?a0 = (None, True, a1)"
      and "reduce_guesses decode a1 (gc, idx, st) = (None, a2)"
      and "drop_rejected a2 gc = (None, a3)" for a1 a2 a3
    using that assms(1) by (simp add: AgentFunction_def)
  have 1: "\<exists>scores k a'.
            calculate_scores (a\<lparr>dictionary_backup := b\<rparr>) = Inr scores \<and>
            length scores = length b \<and>
            (\<forall>j<length b. score (a\<lparr>dictionary_backup := b\<rparr>) (b ! j) = Inr (scores ! j)) \<and>
            k < length b \<and>
            (\<forall>j<length b. scores ! j \<le> scores ! k) \<and>
            (\<forall>j<k. scores ! j < scores ! k) \<and>
            dictionary_backup a' = take k b @ drop (Suc k) b \<and>
            Suc (length (dictionary_backup a')) = length b \<and>
            AgentFunction decode hr a (gc, idx, st) = (choose_guess a' (gc, idx, st), True, a')"
    if dis: "gc \<noteq> last_guess_counter a + 1" and ne: "b \<noteq> []"
  proof -
    have "dictionary_backup a \<noteq> []" using b ne by auto
    with steps obtain a2 where b2: "dictionary_backup a2 = b"
      and c2: "last_guess_counter a2 = last_guess_counter a + 1"
      and g: "get_first_guess hr ?a0 = (None, True, a2\<lparr>dictionary_backup := dictionary_backup a\<rparr>)"
      and red: "reduce_guesses decode (a2\<lparr>dictionary_backup := dictionary_backup a\<rparr>) (gc, idx, st) =
        (None, a2)"
      by blast
    have "dictionary_backup a2 \<noteq> []" "\<forall>w\<in>set (dictionary_backup a2). length w = n"
      "gc \<noteq> last_guess_counter a2"
      using b2 c2 ne bn dis by simp_all
    from drop_rejected_removes [OF this]
    obtain scores k where sc: "calculate_scores a2 = Inr scores"
      and len: "length scores = length b"
      and nth: "\<forall>j<length b. score a2 (b ! j) = Inr (scores ! j)"
      and k: "k < length b"
      and mx: "\<forall>j<length b. scores ! j \<le> scores ! k" "\<forall>j<k. scores ! j < scores ! k"
      and dr: "drop_rejected a2 gc =
        (None, a2\<lparr>dictionary_backup := take k b @ drop (Suc k) b\<rparr>)"
      using b2 by auto
    let ?a3 = "a2\<lparr>dictionary_backup := take k b @ drop (Suc k) b\<rparr>"
    have same: "dictionary_backup (a\<lparr>dictionary_backup := b\<rparr>) = dictionary_backup a2"
      using b2 by simp
    have sc': "calculate_scores (a\<lparr>dictionary_backup := b\<rparr>) = Inr scores"
      using sc calculate_scores_backup [OF same] by simp
    have nth': "\<forall>j<length b. score (a\<lparr>dictionary_backup := b\<rparr>) (b ! j) = Inr (scores ! j)"
      using nth score_backup [OF same] by simp
    have "dictionary_backup ?a3 = take k b @ drop (Suc k) b" by simp
    moreover have "Suc (length (dictionary_backup ?a3)) = length b" using k by simp
    moreover have "AgentFunction decode hr a (gc, idx, st) =
        (choose_guess ?a3 (gc, idx, st), True, ?a3)"
      using unfold [OF g red dr] .
    ultimately show ?thesis using sc' len nth' k mx by blast
  qed
  have 2: "\<exists>a'. dictionary_backup a' = b \<and>
            AgentFunction decode hr a (gc, idx, st) = (choose_guess a' (gc, idx, st), True, a')"
    if agree: "gc = last_guess_counter a + 1" and ok: "hr \<or> dictionary_backup a \<noteq> []"
  proof -
    from steps [OF ok] obtain a2 where b2: "dictionary_backup a2 = b"
      and c2: "last_guess_counter a2 = last_guess_counter a + 1"
      and g: "get_first_guess hr ?a0 = (None, True, a2\<lparr>dictionary_backup := dictionary_backup a\<rparr>)"
      and red: "reduce_guesses decode (a2\<lparr>dictionary_backup := dictionary_backup a\<rparr>) (gc, idx, st) =
        (None, a2)"
      by blast
    have dr: "drop_rejected a2 gc = (None, a2)"
      using agree c2 by (simp add: drop_rejected_agree)
    from unfold [OF g red dr] b2 show ?thesis by blast
  qed
  from 1 2 show ?thesis by blast
qed

subsection \<open>The opener\<close>

text \<open>
  The state of a process once the opener is cached: the flag is set, the dictionary is
  the one the agent was built with and the cached index is \<open>k\<close>, a position of the
  dictionary.
\<close>

lemma AgentFunction_keeps_opener:
  assumes "dictionary a = dict" and "first_guess_index a = k" and "k < length dict"
    and "AgentFunction decode True a (gc, idx, st) = (out, hr', a')"
  shows "hr' \<and> dictionary a' = dict \<and> first_guess_index a' = k \<and>
         (gc = 0 \<longrightarrow> out = Inr (Some (dict ! k)))"
proof (cases "gc = 0")
  case True
  then show ?thesis using assms
    by (auto simp add: AgentFunction_def get_first_guess_has_run py_index_def)
next
  case False
  let ?a1 = "a\<lparr>last_guess_counter := last_guess_counter a + 1\<rparr>"
  obtain r2 a2 where red: "reduce_guesses decode ?a1 (gc, idx, st) = (r2, a2)"
    by (cases "reduce_guesses decode ?a1 (gc, idx, st)") auto
  then have a2: "dictionary a2 = dict \<and> first_guess_index a2 = k"
    using assms(1,2) by (auto simp add: reduce_guesses_backup)
  show ?thesis
  proof (cases r2)
    case (Some e)
    then show ?thesis using assms(4) False red a2
      by (simp add: AgentFunction_def get_first_guess_has_run)
  next
    case None
    obtain r3 a3 where dr: "drop_rejected a2 gc = (r3, a3)"
      by (cases "drop_rejected a2 gc") auto
    from drop_rejected_changes [OF dr] a2
    have a3: "dictionary a3 = dict \<and> first_guess_index a3 = k" by auto
    show ?thesis using assms(4) False red None dr a3
      by (cases r3) (auto simp add: AgentFunction_def get_first_guess_has_run)
  qed
qed

lemma play_keeps_opener:
  assumes "dictionary a = dict" and "first_guess_index a = k" and "k < length dict"
    and "play decode True a ps = (outs, hr', a')"
  shows "hr' \<and> dictionary a' = dict \<and> first_guess_index a' = k \<and>
         length outs \<le> length ps \<and>
         (\<forall>j<length outs. fst (ps ! j) = 0 \<longrightarrow> outs ! j = Inr (Some (dict ! k)))"
  using assms
proof (induction ps arbitrary: a outs hr' a')
  case Nil
  then show ?case by simp
next
  case (Cons p ps)
  obtain gc idx st where p: "p = (gc, idx, st)" by (cases p) auto
  obtain out hr1 a1 where af: "AgentFunction decode True a (gc, idx, st) = (out, hr1, a1)"
    by (cases "AgentFunction decode True a (gc, idx, st)") auto
  from AgentFunction_keeps_opener [OF Cons.prems(1,2,3) af]
  have inv: "hr1" "dictionary a1 = dict" "first_guess_index a1 = k"
    and o: "gc = 0 \<longrightarrow> out = Inr (Some (dict ! k))" by simp_all
  show ?case
  proof (cases out)
    case (Inl e)
    then have "outs = [Inl e]" "hr' = hr1" "a' = a1"
      using Cons.prems(4) p af by simp_all
    then show ?thesis using inv o Inl p by simp
  next
    case (Inr r)
    obtain outs2 hr2 a2 where pl: "play decode True a1 ps = (outs2, hr2, a2)"
      by (cases "play decode True a1 ps") auto
    from Cons.IH [OF inv(2,3) Cons.prems(3) pl]
    have ih: "hr2" "dictionary a2 = dict" "first_guess_index a2 = k" "length outs2 \<le> length ps"
      "\<forall>j<length outs2. fst (ps ! j) = 0 \<longrightarrow> outs2 ! j = Inr (Some (dict ! k))"
      by simp_all
    have res: "outs = Inr r # outs2" "hr' = hr2" "a' = a2"
      using Cons.prems(4) p af Inr pl inv(1) by simp_all
    have "\<forall>j<length outs. fst ((p # ps) ! j) = 0 \<longrightarrow> outs ! j = Inr (Some (dict ! k))"
    proof (intro allI impI)
      fix j assume j: "j < length outs" and z: "fst ((p # ps) ! j) = 0"
      show "outs ! j = Inr (Some (dict ! k))"
      proof (cases j)
        case 0
        then show ?thesis using z p o Inr res by simp
      next
        case (Suc i)
        then show ?thesis using j z res ih(5) by simp
      qed
    qed
    then show ?thesis using res ih by simp
  qed
qed

text \<open>
  Claim C6. For an agent built on a non-empty dictionary of words of one length, in a
  process whose flag is not yet set: the first call of \<^verbatim>\<open>get_first_guess\<close> scores every
  word of the dictionary against the whole dictionary and stores the index \<open>k\<close> of the
  first maximum; a call with the flag set changes nothing; and after any sequence of
  calls of \<^verbatim>\<open>AgentFunction\<close> the flag is set, the stored index is still \<open>k\<close>, and every
  call on turn 0 has returned the word of the dictionary at \<open>k\<close>. For any agent of the
  process, a call on turn 0 that returns gives the word of its dictionary at its stored
  index, which a set flag leaves as it was.
\<close>

theorem opener_computed_once:
  assumes "dict \<noteq> []" and "\<forall>w\<in>set dict. length w = n"
    and "a0 = init dict ls wl ng m"
  shows "\<exists>scores k.
     calculate_scores a0 = Inr scores \<and> argmax scores = Inr k \<and> k < length dict \<and>
     (\<forall>j<length dict. score a0 (dict ! j) = Inr (scores ! j)) \<and>
     (\<forall>j<length dict. scores ! j \<le> scores ! k) \<and> (\<forall>j<k. scores ! j < scores ! k) \<and>
     get_first_guess False a0 = (None, True, a0\<lparr>first_guess_index := k\<rparr>) \<and>
     (\<forall>a. get_first_guess True a = (None, True, a)) \<and>
     (\<forall>ps outs hr a'. play decode False a0 ps = (outs, hr, a') \<and> ps \<noteq> [] \<longrightarrow>
        hr \<and> first_guess_index a' = k \<and>
        (\<forall>j<length outs. fst (ps ! j) = 0 \<longrightarrow> outs ! j = Inr (Some (dict ! k)))) \<and>
     (\<forall>h x idx st r h' x'. AgentFunction decode h x (0, idx, st) = (Inr r, h', x') \<longrightarrow>
        r = Some (dictionary x ! first_guess_index x') \<and>
        (h \<longrightarrow> first_guess_index x' = first_guess_index x))"
proof -
  have b0: "dictionary_backup a0 = dict" "dictionary a0 = dict"
    using assms(3) by (simp_all add: init_def)
  from calculate_scores_total [of a0 n] assms(1,2) b0
  obtain scores where sc: "calculate_scores a0 = Inr scores" and len: "length scores = length dict"
    by auto
  then have "scores \<noteq> []" using assms(1) by auto
  from argmax_total [OF this] obtain k where am: "argmax scores = Inr k" by blast
  from argmax_first_max [OF am] len have k: "k < length dict"
    and mx: "\<forall>j<length dict. scores ! j \<le> scores ! k" "\<forall>j<k. scores ! j < scores ! k"
    by simp_all
  from sc b0 have "scores_loop a0 dict = Inr scores" by (simp add: calculate_scores_def)
  from scores_loop_nth [OF this]
  have nth: "\<forall>j<length dict. score a0 (dict ! j) = Inr (scores ! j)" by simp
  have first: "get_first_guess False a = (None, True, a\<lparr>first_guess_index := k\<rparr>)"
    if "dictionary_backup a = dict" for a
  proof -
    have "calculate_scores a = Inr scores"
      using sc calculate_scores_backup [of a a0] that b0 by simp
    then show ?thesis
      by (simp add: get_first_guess_def run_once_def get_first_guess_body_def am)
  qed
  have plays: "hr \<and> first_guess_index a' = k \<and>
        (\<forall>j<length outs. fst (ps ! j) = 0 \<longrightarrow> outs ! j = Inr (Some (dict ! k)))"
    if pl: "play decode False a0 ps = (outs, hr, a')" and ne: "ps \<noteq> []" for ps outs hr a'
  proof -
    from ne obtain p ps' where ps: "ps = p # ps'" by (cases ps) auto
    obtain gc idx st where p: "p = (gc, idx, st)" by (cases p) auto
    let ?a1 = "a0\<lparr>last_guess_counter := last_guess_counter a0 + 1\<rparr>"
    let ?a2 = "?a1\<lparr>first_guess_index := k\<rparr>"
    have g: "get_first_guess False ?a1 = (None, True, ?a2)"
      using first [of ?a1] b0 by simp
    have same: "AgentFunction decode False a0 (gc, idx, st) =
        AgentFunction decode True (a0\<lparr>first_guess_index := k\<rparr>) (gc, idx, st)"
    proof -
      have "a0\<lparr>first_guess_index := k,
              last_guess_counter := last_guess_counter (a0\<lparr>first_guess_index := k\<rparr>) + 1\<rparr> = ?a2"
        by simp
      then show ?thesis
        by (simp only: AgentFunction_def g get_first_guess_has_run)
    qed
    have "play decode False a0 ps = play decode True (a0\<lparr>first_guess_index := k\<rparr>) ps"
    proof (cases "AgentFunction decode True (a0\<lparr>first_guess_index := k\<rparr>) (gc, idx, st)")
      case (fields out hr1 a1)
      have "dictionary (a0\<lparr>first_guess_index := k\<rparr>) = dict"
        "first_guess_index (a0\<lparr>first_guess_index := k\<rparr>) = k"
        using b0 by simp_all
      from AgentFunction_keeps_opener [OF this k fields]
      have "hr1" by simp
      then show ?thesis using ps p same fields by (cases out) simp_all
    qed
    with pl have "play decode True (a0\<lparr>first_guess_index := k\<rparr>) ps = (outs, hr, a')" by simp
    moreover have "dictionary (a0\<lparr>first_guess_index := k\<rparr>) = dict"
        "first_guess_index (a0\<lparr>first_guess_index := k\<rparr>) = k"
      using b0 by simp_all
    ultimately show ?thesis using play_keeps_opener [of _ dict k decode ps outs hr a'] k
      by blast
  qed
  have turn0: "r = Some (dictionary x ! first_guess_index x') \<and>
        (h \<longrightarrow> first_guess_index x' = first_guess_index x)"
    if af: "AgentFunction decode h x (0, idx, st) = (Inr r, h', x')" for h x idx st r h' x'
  proof -
    from AgentFunction_turn0 [OF af]
    obtain a1 w where g: "get_first_guess h (x\<lparr>last_guess_counter := last_guess_counter x + 1\<rparr>)
          = (None, h', a1)"
      and x': "x' = a1\<lparr>last_guess_counter := 0, dictionary_backup := dictionary a1\<rparr>"
      and w: "py_index (dictionary a1) (first_guess_index a1) = Inr w" and r: "r = Some w"
      by blast
    from get_first_guess_changes [OF g] have d: "dictionary a1 = dictionary x" by auto
    from w have "w = dictionary a1 ! first_guess_index a1"
      by (simp add: py_index_def split: if_splits)
    then have 1: "r = Some (dictionary x ! first_guess_index x')" using r d x' by simp
    have 2: "first_guess_index x' = first_guess_index x" if h
      using that g x' by (auto simp add: get_first_guess_has_run)
    from 1 2 show ?thesis by blast
  qed
  from sc am k nth mx first [of a0] b0 get_first_guess_has_run plays turn0
  show ?thesis by blast
qed

section \<open>Concrete runs\<close>

text \<open>
  Calls of \<^verbatim>\<open>AgentFunction\<close> on the concrete agents, evaluated step by step: the scores
  first, then the reducer, the rejection step and the choice of the guess. The scores
  are doubles, written as fractions: 900719925474099 / 1125899906842624 is the double
  that Python prints as 0.7999999999999998.
\<close>

lemmas float_eval = fl_def ilog2_def round_half_even_def pow2_def bit_length.simps Let_def
  float_add_def float_sub_def float_mul_def true_div_def

lemmas score_eval = calculate_scores_def score_def entropy_def probability_def py_index_def
  upt_rec float_eval

lemma scores_oddly:
  "dictionary_backup a = [''BRAIN'', ''DRAIN'', ''TRAIN'', ''GRAIN'', ''ODDLY''] \<Longrightarrow>
   calculate_scores a =
     Inr [900719925474099 / 1125899906842624, 900719925474099 / 1125899906842624,
          900719925474099 / 1125899906842624, 900719925474099 / 1125899906842624,
          1621295865853379 / 2251799813685248]"
  by (simp add: score_eval)

lemma scores_five:
  "dictionary_backup a = [''CRANE'', ''SPINE'', ''CLONE'', ''PRICE'', ''PLANT''] \<Longrightarrow>
   calculate_scores a =
     Inr [4683743612465315 / 4503599627370496, 990791918021509 / 1125899906842624,
          1080863910568919 / 1125899906842624, 1170935903116329 / 1125899906842624,
          1170935903116329 / 1125899906842624]"
  by (simp add: score_eval)

lemma scores_five4:
  "dictionary_backup a = [''CRANE'', ''SPINE'', ''CLONE'', ''PLANT''] \<Longrightarrow>
   calculate_scores a = Inr [7 / 8, 3 / 4, 7 / 8, 7 / 8]"
  by (simp add: score_eval)

lemma scores_rain4:
  "dictionary_backup a = [''BRAIN'', ''DRAIN'', ''TRAIN'', ''GRAIN''] \<Longrightarrow>
   calculate_scores a = Inr [3 / 16, 3 / 16, 3 / 16, 3 / 16]"
  by (simp add: score_eval)

lemma scores_rain3:
  "dictionary_backup a = [''DRAIN'', ''TRAIN'', ''GRAIN''] \<Longrightarrow>
   calculate_scores a =
     Inr [8006399337547549 / 36028797018963968, 8006399337547549 / 36028797018963968,
          8006399337547549 / 36028797018963968]"
  by (simp add: score_eval)

lemma scores_rain2:
  "dictionary_backup a = [''TRAIN'', ''GRAIN''] \<Longrightarrow> calculate_scores a = Inr [1 / 4, 1 / 4]"
  by (simp add: score_eval)

lemma scores_one:
  "dictionary_backup a = [w] \<Longrightarrow> length w = 5 \<Longrightarrow> calculate_scores a = Inr [0]"
  by (simp add: score_eval)

lemma scores_none:
  "dictionary_backup a = [] \<Longrightarrow> calculate_scores a = Inr []"
  by (simp add: calculate_scores_def)

subsection \<open>Calls on the small agents\<close>

lemma oddly_first:
  "AgentFunction letter_indices_to_word False oddly_agent
     (0, [- 1, - 1, - 1, - 1, - 1], [0, 0, 0, 0, 0]) =
     (Inr (Some ''BRAIN''), True, oddly_agent)"
proof -
  let ?a1 = "oddly_agent\<lparr>last_guess_counter := last_guess_counter oddly_agent + 1\<rparr>"
  have "dictionary_backup ?a1 = [''BRAIN'', ''DRAIN'', ''TRAIN'', ''GRAIN'', ''ODDLY'']"
    by (simp add: oddly_agent_def init_def)
  then have "get_first_guess False ?a1 = (None, True, ?a1\<lparr>first_guess_index := 0\<rparr>)"
    by (simp add: get_first_guess_def run_once_def get_first_guess_body_def scores_oddly
        argmax_def)
  then show ?thesis
    by (simp add: AgentFunction_def) (simp add: oddly_agent_def init_def py_index_def)
qed

lemma oddly_second:
  "AgentFunction letter_indices_to_word True oddly_agent (1, [1, 17, 0, 8, 13], [0, 1, 1, 1, 1]) =
     (Inr (Some ''ODDLY''), True,
      oddly_agent\<lparr>dictionary_backup := [''DRAIN'', ''TRAIN'', ''GRAIN''], last_guess_counter := 1\<rparr>)"
  by (simp add: oddly_agent_def init_def alphabet_def stuck_position_def green_counter_def
      AgentFunction_def get_first_guess_def run_once_def reduce_guesses_def
      letter_indices_to_word_def position_removes_def py_index_def upt_rec drop_rejected_def
      choose_guess_def smart_guess_def py_list_index_def argmax_def)

lemma small_second:
  "AgentFunction letter_indices_to_word True small_agent
     (1, [18, 11, 0, 19, 4], [0, 0, 1, - 1, 0]) =
     (Inr (Some ''TRAIN''), True,
      small_agent\<lparr>dictionary_backup := [''TRAIN''], last_guess_counter := 1\<rparr>)"
proof -
  let ?a1 = "small_agent\<lparr>last_guess_counter := last_guess_counter small_agent + 1\<rparr>"
  let ?a2 = "small_agent\<lparr>dictionary_backup := [''TRAIN''], last_guess_counter := 1\<rparr>"
  have red: "reduce_guesses letter_indices_to_word ?a1 (1, [18, 11, 0, 19, 4], [0, 0, 1, - 1, 0]) =
      (None, ?a2)"
    by (simp add: small_agent_def init_def alphabet_def reduce_guesses_def
      letter_indices_to_word_def position_removes_def py_index_def upt_rec)
  have dr: "drop_rejected ?a2 1 = (None, ?a2)"
    by (simp add: drop_rejected_def)
  have sc: "calculate_scores ?a2 = Inr [0]"
    by (rule scores_one [of _ "''TRAIN''"]) simp_all
  have ch: "choose_guess ?a2 (1, [18, 11, 0, 19, 4], [0, 0, 1, - 1, 0]) = Inr (Some ''TRAIN'')"
    by (simp add: choose_guess_def stuck_position_def sc argmax_def py_index_def)
  show ?thesis
    by (simp add: AgentFunction_def get_first_guess_has_run red dr ch)
qed

text \<open>
  The stuck-position path returns ODDLY, a word of the dictionary that is no candidate;
  the scoring path returns the candidate TRAIN.
\<close>

theorem AgentFunction_guess_member_witness:
  "AgentFunction letter_indices_to_word True oddly_agent (1, [1, 17, 0, 8, 13], [0, 1, 1, 1, 1]) =
     (Inr (Some ''ODDLY''), True,
      oddly_agent\<lparr>dictionary_backup := [''DRAIN'', ''TRAIN'', ''GRAIN''], last_guess_counter := 1\<rparr>) \<and>
   stuck_position
     (oddly_agent\<lparr>dictionary_backup := [''DRAIN'', ''TRAIN'', ''GRAIN''], last_guess_counter := 1\<rparr>)
     (1, [1, 17, 0, 8, 13], [0, 1, 1, 1, 1]) \<and>
   ''ODDLY'' \<in> set (dictionary oddly_agent) \<and>
   AgentFunction letter_indices_to_word True small_agent
     (1, [18, 11, 0, 19, 4], [0, 0, 1, - 1, 0]) =
     (Inr (Some ''TRAIN''), True,
      small_agent\<lparr>dictionary_backup := [''TRAIN''], last_guess_counter := 1\<rparr>) \<and>
   \<not> stuck_position
     (small_agent\<lparr>dictionary_backup := [''TRAIN''], last_guess_counter := 1\<rparr>)
     (1, [18, 11, 0, 19, 4], [0, 0, 1, - 1, 0]) \<and>
   ''TRAIN'' \<in> set (dictionary_backup
     (small_agent\<lparr>dictionary_backup := [''TRAIN''], last_guess_counter := 1\<rparr>))"
  using AgentFunction_guess_member [OF oddly_second] AgentFunction_guess_member [OF small_second]
  by (simp add: oddly_second small_second stuck_position_def green_counter_def)

text \<open>
  A call that returns no word: after the guess CRANE with all five states absent no
  candidate is left, and the call returns \<^verbatim>\<open>None\<close>.
\<close>

theorem AgentFunction_returns_None_counterexample:
  "AgentFunction letter_indices_to_word True small_agent
     (1, [2, 17, 0, 13, 4], [0, 0, 0, 0, 0]) =
     (Inr None, True, small_agent\<lparr>dictionary_backup := [], last_guess_counter := 1\<rparr>)"
  by (simp add: small_agent_def init_def alphabet_def AgentFunction_def get_first_guess_def
      run_once_def reduce_guesses_def letter_indices_to_word_def position_removes_def
      py_index_def upt_rec drop_rejected_def choose_guess_def)

text \<open>
  Claim C2, where the code departs from it. In the game that opens with BRAIN and gets
  the states absent, correct, correct, correct, correct, the candidates are DRAIN, TRAIN
  and GRAIN and the possible letters are D, T and G. The dictionary word ODDLY holds the
  letter D twice, and its score is 2, not 0.2: the flag for the penalty is cleared at
  every character, the last letter Y is no possible letter, and so the penalty is not
  applied. ODDLY is the guess returned.
\<close>

theorem smart_guess_penalty_last_letter_only:
  "play letter_indices_to_word False oddly_agent
     [(0, [- 1, - 1, - 1, - 1, - 1], [0, 0, 0, 0, 0]), (1, [1, 17, 0, 8, 13], [0, 1, 1, 1, 1])] =
     ([Inr (Some ''BRAIN''), Inr (Some ''ODDLY'')], True,
      oddly_agent\<lparr>dictionary_backup := [''DRAIN'', ''TRAIN'', ''GRAIN''], last_guess_counter := 1\<rparr>) \<and>
   collect_letters [''DRAIN'', ''TRAIN'', ''GRAIN''] 0 = Inr ''DTG'' \<and>
   smart_scores ''DTG'' [''BRAIN'', ''DRAIN'', ''TRAIN'', ''GRAIN'', ''ODDLY''] None =
     Inr [0, 1, 1, 1, 2] \<and>
   count_list ''ODDLY'' CHR ''D'' = 2"
  by (simp add: oddly_first oddly_second py_index_def)

subsection \<open>Scores in doubles\<close>

text \<open>
  The word ERASE against CRANE, SLATE and TRAIN: the repeated E brings the factor, and
  the score is the double that Python prints as 0.4.
\<close>

theorem score_formula_witness:
  "dictionary_backup small_agent \<noteq> [] \<and> \<not> distinct ''ERASE'' \<and>
   score small_agent ''ERASE'' = Inr (3602879701896397 / 9007199254740992)"
  using score_formula [of small_agent "''ERASE''"]
  by (simp add: small_agent_def init_def letter_fraction_def position_entropy_def upt_rec
      float_eval)

text \<open>
  The score is not the exact sum. Against CRANE, SPINE, CLONE, PRICE and PLANT the exact
  sums for CRANE and for PRICE are both 26/25; the code returns for CRANE the double
  below 26/25 (1.0399999999999998 in Python) and for PRICE the double nearest to it
  (1.04).
\<close>

theorem score_exact_counterexample:
  "dictionary_backup five_agent \<noteq> [] \<and>
   spec_score (dictionary_backup five_agent) ''CRANE'' = 26 / 25 \<and>
   score five_agent ''CRANE'' = Inr (4683743612465315 / 4503599627370496) \<and>
   score five_agent ''CRANE'' \<noteq> Inr (spec_score (dictionary_backup five_agent) ''CRANE'') \<and>
   spec_score (dictionary_backup five_agent) ''PRICE'' =
     spec_score (dictionary_backup five_agent) ''CRANE'' \<and>
   score five_agent ''PRICE'' \<noteq> score five_agent ''CRANE''"
proof -
  have b: "dictionary_backup five_agent = [''CRANE'', ''SPINE'', ''CLONE'', ''PRICE'', ''PLANT'']"
    by (simp add: five_agent_def init_def)
  have c: "score five_agent ''CRANE'' = Inr (4683743612465315 / 4503599627370496)"
    by (simp add: b score_def entropy_def probability_def py_index_def upt_rec float_eval)
  have p: "score five_agent ''PRICE'' = Inr (1170935903116329 / 1125899906842624)"
    by (simp add: b score_def entropy_def probability_def py_index_def upt_rec float_eval)
  have sc: "spec_score (dictionary_backup five_agent) ''CRANE'' = 26 / 25"
    by (simp add: b spec_score_def letter_fraction_def upt_rec)
  have sp: "spec_score (dictionary_backup five_agent) ''PRICE'' = 26 / 25"
    by (simp add: b spec_score_def letter_fraction_def upt_rec)
  show ?thesis by (simp add: c p sc sp) (simp add: b)
qed

subsection \<open>The opener of the five-word dictionary\<close>

lemma five_first:
  "AgentFunction letter_indices_to_word False five_agent
     (0, [- 1, - 1, - 1, - 1, - 1], [0, 0, 0, 0, 0]) =
     (Inr (Some ''PRICE''), True, five_agent\<lparr>first_guess_index := 3\<rparr>)"
proof -
  let ?a1 = "five_agent\<lparr>last_guess_counter := last_guess_counter five_agent + 1\<rparr>"
  have "dictionary_backup ?a1 = [''CRANE'', ''SPINE'', ''CLONE'', ''PRICE'', ''PLANT'']"
    by (simp add: five_agent_def init_def)
  then have "get_first_guess False ?a1 = (None, True, ?a1\<lparr>first_guess_index := 3\<rparr>)"
    by (simp add: get_first_guess_def run_once_def get_first_guess_body_def scores_five
        argmax_def)
  then show ?thesis
    by (simp add: AgentFunction_def) (simp add: five_agent_def init_def py_index_def)
qed

lemma five_second:
  "AgentFunction letter_indices_to_word True (five_agent\<lparr>first_guess_index := 3\<rparr>)
     (1, [15, 17, 8, 2, 4], [1, 0, 0, 0, 0]) =
     (Inr (Some ''PLANT''), True,
      five_agent\<lparr>first_guess_index := 3, dictionary_backup := [''PLANT''],
        last_guess_counter := 1\<rparr>)"
proof -
  let ?a1 = "five_agent\<lparr>first_guess_index := 3,
      last_guess_counter := last_guess_counter five_agent + 1\<rparr>"
  let ?a2 = "five_agent\<lparr>first_guess_index := 3, dictionary_backup := [''PLANT''],
      last_guess_counter := 1\<rparr>"
  have red: "reduce_guesses letter_indices_to_word ?a1 (1, [15, 17, 8, 2, 4], [1, 0, 0, 0, 0]) =
      (None, ?a2)"
    by (simp add: five_agent_def init_def alphabet_def reduce_guesses_def
      letter_indices_to_word_def position_removes_def py_index_def upt_rec)
  have dr: "drop_rejected ?a2 1 = (None, ?a2)"
    by (simp add: drop_rejected_def)
  have sc: "calculate_scores ?a2 = Inr [0]"
    by (rule scores_one [of _ "''PLANT''"]) simp_all
  have ch: "choose_guess ?a2 (1, [15, 17, 8, 2, 4], [1, 0, 0, 0, 0]) = Inr (Some ''PLANT'')"
    by (simp add: choose_guess_def stuck_position_def sc argmax_def py_index_def)
  show ?thesis
    by (simp add: AgentFunction_def get_first_guess_has_run red dr ch)
qed

lemma five_third:
  "AgentFunction letter_indices_to_word True
     (five_agent\<lparr>first_guess_index := 3, dictionary_backup := [''PLANT''],
        last_guess_counter := 1\<rparr>)
     (0, [- 1, - 1, - 1, - 1, - 1], [0, 0, 0, 0, 0]) =
     (Inr (Some ''PRICE''), True, five_agent\<lparr>first_guess_index := 3\<rparr>)"
  by (simp add: AgentFunction_def get_first_guess_has_run)
     (simp add: five_agent_def init_def py_index_def)

text \<open>
  Two games in one process: the opener PRICE, at index 3, is computed in the first call
  and returned again at turn 0 of the second game.
\<close>

theorem opener_computed_once_witness:
  "dictionary five_agent \<noteq> [] \<and>
   get_first_guess False five_agent = (None, True, five_agent\<lparr>first_guess_index := 3\<rparr>) \<and>
   dictionary five_agent ! 3 = ''PRICE'' \<and>
   play letter_indices_to_word False five_agent
     [(0, [- 1, - 1, - 1, - 1, - 1], [0, 0, 0, 0, 0]), (1, [15, 17, 8, 2, 4], [1, 0, 0, 0, 0]),
      (0, [- 1, - 1, - 1, - 1, - 1], [0, 0, 0, 0, 0])] =
     ([Inr (Some ''PRICE''), Inr (Some ''PLANT''), Inr (Some ''PRICE'')], True,
      five_agent\<lparr>first_guess_index := 3\<rparr>)"
proof -
  let ?dict = "[''CRANE'', ''SPINE'', ''CLONE'', ''PRICE'', ''PLANT'']"
  have ne: "?dict \<noteq> []" by simp
  have len: "\<forall>w\<in>set ?dict. length w = 5" by simp
  have a0: "five_agent = init ?dict alphabet 5 6 ''hard''" by (simp add: five_agent_def)
  from opener_computed_once [OF ne len a0, of letter_indices_to_word]
  obtain scores k where sc: "calculate_scores five_agent = Inr scores"
    and am: "argmax scores = Inr k"
    and g: "get_first_guess False five_agent = (None, True, five_agent\<lparr>first_guess_index := k\<rparr>)"
    by blast
  have "dictionary_backup five_agent = ?dict" by (simp add: five_agent_def init_def)
  from scores_five [OF this] sc am have k: "k = 3" by (simp add: argmax_def)
  have "play letter_indices_to_word False five_agent
     [(0, [- 1, - 1, - 1, - 1, - 1], [0, 0, 0, 0, 0]), (1, [15, 17, 8, 2, 4], [1, 0, 0, 0, 0]),
      (0, [- 1, - 1, - 1, - 1, - 1], [0, 0, 0, 0, 0])] =
     ([Inr (Some ''PRICE''), Inr (Some ''PLANT''), Inr (Some ''PRICE'')], True,
      five_agent\<lparr>first_guess_index := 3\<rparr>)"
    by (simp add: five_first five_second five_third)
  moreover have "dictionary five_agent \<noteq> []" "dictionary five_agent ! 3 = ''PRICE''"
    by (simp_all add: five_agent_def init_def)
  ultimately show ?thesis using g k by simp
qed

subsection \<open>Rejected guesses\<close>

text \<open>
  A rejected guess on the five words: the percepts leave all five candidates, PRICE is
  the first with the maximal score and is removed, and CRANE is chosen from the rest.
\<close>

lemma five_rejected:
  "AgentFunction letter_indices_to_word True (five_agent\<lparr>first_guess_index := 3\<rparr>)
     (2, [25, 25, 25, 25, 25], [0, 0, 0, 0, 0]) =
     (Inr (Some ''CRANE''), True,
      five_agent\<lparr>first_guess_index := 3,
        dictionary_backup := [''CRANE'', ''SPINE'', ''CLONE'', ''PLANT''],
        last_guess_counter := 1\<rparr>)"
proof -
  let ?a1 = "five_agent\<lparr>first_guess_index := 3,
      last_guess_counter := last_guess_counter five_agent + 1\<rparr>"
  let ?a2 = "five_agent\<lparr>first_guess_index := 3, last_guess_counter := 1\<rparr>"
  let ?a3 = "five_agent\<lparr>first_guess_index := 3,
        dictionary_backup := [''CRANE'', ''SPINE'', ''CLONE'', ''PLANT''],
        last_guess_counter := 1\<rparr>"
  have red: "reduce_guesses letter_indices_to_word ?a1 (2, [25, 25, 25, 25, 25], [0, 0, 0, 0, 0]) =
      (None, ?a2)"
    by (simp add: five_agent_def init_def alphabet_def reduce_guesses_def
      letter_indices_to_word_def position_removes_def py_index_def upt_rec)
  have b2: "dictionary_backup ?a2 = [''CRANE'', ''SPINE'', ''CLONE'', ''PRICE'', ''PLANT'']"
    by (simp add: five_agent_def init_def)
  have dr: "drop_rejected ?a2 2 = (None, ?a3)"
    by (simp add: drop_rejected_def scores_five [OF b2] argmax_def py_index_def b2)
  have ch: "choose_guess ?a3 (2, [25, 25, 25, 25, 25], [0, 0, 0, 0, 0]) = Inr (Some ''CRANE'')"
  proof -
    have "mode five_agent = ''hard''" by (simp add: five_agent_def init_def)
    then show ?thesis
      by (simp add: choose_guess_def stuck_position_def scores_five4 argmax_def py_index_def)
  qed
  show ?thesis
    by (simp add: AgentFunction_def get_first_guess_has_run red dr ch)
qed

text \<open>
  A game in hard mode on BRAIN, DRAIN, TRAIN and GRAIN in which the guess DRAIN is
  rejected, so that the call for guess 1 comes twice and the counters differ from then on.
\<close>

lemma rain_first:
  "AgentFunction letter_indices_to_word False rain_agent
     (0, [- 1, - 1, - 1, - 1, - 1], [0, 0, 0, 0, 0]) =
     (Inr (Some ''BRAIN''), True, rain_agent)"
proof -
  let ?a1 = "rain_agent\<lparr>last_guess_counter := last_guess_counter rain_agent + 1\<rparr>"
  have "dictionary_backup ?a1 = [''BRAIN'', ''DRAIN'', ''TRAIN'', ''GRAIN'']"
    by (simp add: rain_agent_def init_def)
  then have "get_first_guess False ?a1 = (None, True, ?a1\<lparr>first_guess_index := 0\<rparr>)"
    by (simp add: get_first_guess_def run_once_def get_first_guess_body_def scores_rain4
        argmax_def)
  then show ?thesis
    by (simp add: AgentFunction_def) (simp add: rain_agent_def init_def py_index_def)
qed

lemma rain_fields: "mode rain_agent = ''hard''" "last_guess_counter rain_agent = 0"
  "letters rain_agent = alphabet"
  "dictionary_backup rain_agent = [''BRAIN'', ''DRAIN'', ''TRAIN'', ''GRAIN'']"
  by (simp_all add: rain_agent_def init_def)

lemma rain_second:
  "AgentFunction letter_indices_to_word True rain_agent (1, [1, 17, 0, 8, 13], [0, 1, 1, 1, 1]) =
     (Inr (Some ''DRAIN''), True,
      rain_agent\<lparr>dictionary_backup := [''DRAIN'', ''TRAIN'', ''GRAIN''], last_guess_counter := 1\<rparr>)"
proof -
  let ?a1 = "rain_agent\<lparr>last_guess_counter := last_guess_counter rain_agent + 1\<rparr>"
  let ?a2 = "rain_agent\<lparr>dictionary_backup := [''DRAIN'', ''TRAIN'', ''GRAIN''],
      last_guess_counter := 1\<rparr>"
  have red: "reduce_guesses letter_indices_to_word ?a1 (1, [1, 17, 0, 8, 13], [0, 1, 1, 1, 1]) =
      (None, ?a2)"
    by (simp add: rain_agent_def init_def alphabet_def reduce_guesses_def
      letter_indices_to_word_def position_removes_def py_index_def upt_rec)
  have dr: "drop_rejected ?a2 1 = (None, ?a2)"
    by (simp add: drop_rejected_def)
  have ch: "choose_guess ?a2 (1, [1, 17, 0, 8, 13], [0, 1, 1, 1, 1]) = Inr (Some ''DRAIN'')"
    by (simp add: choose_guess_def stuck_position_def rain_fields scores_rain3 argmax_def
        py_index_def)
  show ?thesis
    by (simp add: AgentFunction_def get_first_guess_has_run red dr ch)
qed

lemma rain_third:
  "AgentFunction letter_indices_to_word True
     (rain_agent\<lparr>dictionary_backup := [''DRAIN'', ''TRAIN'', ''GRAIN''], last_guess_counter := 1\<rparr>)
     (1, [1, 17, 0, 8, 13], [0, 1, 1, 1, 1]) =
     (Inr (Some ''TRAIN''), True,
      rain_agent\<lparr>dictionary_backup := [''TRAIN'', ''GRAIN''], last_guess_counter := 2\<rparr>)"
proof -
  let ?a1 = "rain_agent\<lparr>dictionary_backup := [''DRAIN'', ''TRAIN'', ''GRAIN''],
      last_guess_counter := 2\<rparr>"
  let ?a3 = "rain_agent\<lparr>dictionary_backup := [''TRAIN'', ''GRAIN''], last_guess_counter := 2\<rparr>"
  have red: "reduce_guesses letter_indices_to_word ?a1 (1, [1, 17, 0, 8, 13], [0, 1, 1, 1, 1]) =
      (None, ?a1)"
    by (simp add: rain_agent_def init_def alphabet_def reduce_guesses_def
      letter_indices_to_word_def position_removes_def py_index_def upt_rec)
  have dr: "drop_rejected ?a1 1 = (None, ?a3)"
    by (simp add: drop_rejected_def scores_rain3 argmax_def py_index_def)
  have ch: "choose_guess ?a3 (1, [1, 17, 0, 8, 13], [0, 1, 1, 1, 1]) = Inr (Some ''TRAIN'')"
    by (simp add: choose_guess_def stuck_position_def rain_fields scores_rain2 argmax_def
        py_index_def)
  show ?thesis
    by (simp add: AgentFunction_def get_first_guess_has_run red dr ch)
qed

lemma rain_fourth:
  "AgentFunction letter_indices_to_word True
     (rain_agent\<lparr>dictionary_backup := [''TRAIN'', ''GRAIN''], last_guess_counter := 2\<rparr>)
     (2, [19, 17, 0, 8, 13], [0, 1, 1, 1, 1]) =
     (Inr None, True, rain_agent\<lparr>dictionary_backup := [], last_guess_counter := 3\<rparr>)"
proof -
  let ?a1 = "rain_agent\<lparr>dictionary_backup := [''TRAIN'', ''GRAIN''], last_guess_counter := 3\<rparr>"
  let ?a2 = "rain_agent\<lparr>dictionary_backup := [''GRAIN''], last_guess_counter := 3\<rparr>"
  let ?a3 = "rain_agent\<lparr>dictionary_backup := [], last_guess_counter := 3\<rparr>"
  have red: "reduce_guesses letter_indices_to_word ?a1 (2, [19, 17, 0, 8, 13], [0, 1, 1, 1, 1]) =
      (None, ?a2)"
    by (simp add: rain_agent_def init_def alphabet_def reduce_guesses_def
      letter_indices_to_word_def position_removes_def py_index_def upt_rec)
  have sc: "calculate_scores ?a2 = Inr [0]"
    by (rule scores_one [of _ "''GRAIN''"]) simp_all
  have dr: "drop_rejected ?a2 2 = (None, ?a3)"
    by (simp add: drop_rejected_def sc argmax_def py_index_def)
  have ch: "choose_guess ?a3 (2, [19, 17, 0, 8, 13], [0, 1, 1, 1, 1]) = Inr None"
    by (simp add: choose_guess_def)
  show ?thesis
    by (simp add: AgentFunction_def get_first_guess_has_run red dr ch)
qed

lemma rain_fifth:
  "AgentFunction letter_indices_to_word True
     (rain_agent\<lparr>dictionary_backup := [], last_guess_counter := 3\<rparr>)
     (2, [19, 17, 0, 8, 13], [0, 1, 1, 1, 1]) =
     (Inl ValueError, True, rain_agent\<lparr>dictionary_backup := [], last_guess_counter := 4\<rparr>)"
proof -
  let ?a1 = "rain_agent\<lparr>dictionary_backup := [], last_guess_counter := 4\<rparr>"
  have red: "reduce_guesses letter_indices_to_word ?a1 (2, [19, 17, 0, 8, 13], [0, 1, 1, 1, 1]) =
      (None, ?a1)"
    by (simp add: reduce_guesses_def)
  have dr: "drop_rejected ?a1 2 = (Some ValueError, ?a1)"
    by (simp add: drop_rejected_def scores_none argmax_def)
  show ?thesis
    by (simp add: AgentFunction_def get_first_guess_has_run red dr)
qed

text \<open>
  In that game the fourth call removes the last candidate and returns \<^verbatim>\<open>None\<close>. The fifth
  call, with differing counters, finds no candidate after the reducer: \<^verbatim>\<open>np.argmax\<close>
  raises ValueError, no word is removed and no guess is selected.
\<close>

theorem rejected_guess_empty_counterexample:
  "play letter_indices_to_word False rain_agent
     [(0, [- 1, - 1, - 1, - 1, - 1], [0, 0, 0, 0, 0]),
      (1, [1, 17, 0, 8, 13], [0, 1, 1, 1, 1]),
      (1, [1, 17, 0, 8, 13], [0, 1, 1, 1, 1]),
      (2, [19, 17, 0, 8, 13], [0, 1, 1, 1, 1]),
      (2, [19, 17, 0, 8, 13], [0, 1, 1, 1, 1])] =
     ([Inr (Some ''BRAIN''), Inr (Some ''DRAIN''), Inr (Some ''TRAIN''), Inr None, Inl ValueError],
      True, rain_agent\<lparr>dictionary_backup := [], last_guess_counter := 4\<rparr>) \<and>
   AgentFunction letter_indices_to_word True
     (rain_agent\<lparr>dictionary_backup := [], last_guess_counter := 3\<rparr>)
     (2, [19, 17, 0, 8, 13], [0, 1, 1, 1, 1]) =
     (Inl ValueError, True, rain_agent\<lparr>dictionary_backup := [], last_guess_counter := 4\<rparr>)"
  by (simp add: rain_first rain_second rain_third rain_fourth rain_fifth)

text \<open>
  The third call of the game, with counter 1 against the agent's 2, removes DRAIN and
  returns TRAIN; on the five words the word removed is PRICE at index 3; and the second
  call of the game, with equal counters, removes nothing.
\<close>

theorem rejected_guess_removed_witness:
  "dictionary_backup (snd (reduce_guesses letter_indices_to_word
      (rain_agent\<lparr>dictionary_backup := [''DRAIN'', ''TRAIN'', ''GRAIN''], last_guess_counter := 1\<rparr>)
      (1, [1, 17, 0, 8, 13], [0, 1, 1, 1, 1]))) = [''DRAIN'', ''TRAIN'', ''GRAIN''] \<and>
   AgentFunction letter_indices_to_word True
     (rain_agent\<lparr>dictionary_backup := [''DRAIN'', ''TRAIN'', ''GRAIN''], last_guess_counter := 1\<rparr>)
     (1, [1, 17, 0, 8, 13], [0, 1, 1, 1, 1]) =
     (Inr (Some ''TRAIN''), True,
      rain_agent\<lparr>dictionary_backup := [''TRAIN'', ''GRAIN''], last_guess_counter := 2\<rparr>) \<and>
   dictionary_backup (snd (reduce_guesses letter_indices_to_word
      (five_agent\<lparr>first_guess_index := 3\<rparr>) (2, [25, 25, 25, 25, 25], [0, 0, 0, 0, 0]))) =
     [''CRANE'', ''SPINE'', ''CLONE'', ''PRICE'', ''PLANT''] \<and>
   AgentFunction letter_indices_to_word True (five_agent\<lparr>first_guess_index := 3\<rparr>)
     (2, [25, 25, 25, 25, 25], [0, 0, 0, 0, 0]) =
     (Inr (Some ''CRANE''), True,
      five_agent\<lparr>first_guess_index := 3,
        dictionary_backup := [''CRANE'', ''SPINE'', ''CLONE'', ''PLANT''],
        last_guess_counter := 1\<rparr>) \<and>
   dictionary_backup (snd (reduce_guesses letter_indices_to_word rain_agent
      (1, [1, 17, 0, 8, 13], [0, 1, 1, 1, 1]))) = [''DRAIN'', ''TRAIN'', ''GRAIN''] \<and>
   AgentFunction letter_indices_to_word True rain_agent (1, [1, 17, 0, 8, 13], [0, 1, 1, 1, 1]) =
     (Inr (Some ''DRAIN''), True,
      rain_agent\<lparr>dictionary_backup := [''DRAIN'', ''TRAIN'', ''GRAIN''], last_guess_counter := 1\<rparr>)"
proof -
  let ?r = "rain_agent\<lparr>dictionary_backup := [''DRAIN'', ''TRAIN'', ''GRAIN''],
      last_guess_counter := 1\<rparr>"
  let ?f = "five_agent\<lparr>first_guess_index := 3\<rparr>"
  let ?st = "[0, 1, 1, 1, 1] :: int list"
  have b1: "[''DRAIN'', ''TRAIN'', ''GRAIN''] =
      dictionary_backup (snd (reduce_guesses letter_indices_to_word ?r (1, [1, 17, 0, 8, 13], ?st)))"
    by (simp add: rain_agent_def init_def alphabet_def reduce_guesses_def
      letter_indices_to_word_def position_removes_def py_index_def upt_rec)
  have b2: "[''CRANE'', ''SPINE'', ''CLONE'', ''PRICE'', ''PLANT''] =
      dictionary_backup (snd (reduce_guesses letter_indices_to_word ?f
        (2, [25, 25, 25, 25, 25], [0, 0, 0, 0, 0])))"
    by (simp add: five_agent_def init_def alphabet_def reduce_guesses_def
      letter_indices_to_word_def position_removes_def py_index_def upt_rec)
  have b3: "[''DRAIN'', ''TRAIN'', ''GRAIN''] =
      dictionary_backup (snd (reduce_guesses letter_indices_to_word rain_agent
        (1, [1, 17, 0, 8, 13], ?st)))"
    by (simp add: rain_agent_def init_def alphabet_def reduce_guesses_def
      letter_indices_to_word_def position_removes_def py_index_def upt_rec)
  have w1: "\<forall>w\<in>set (dictionary_backup ?r). length w = 5" by simp
  have w2: "\<forall>w\<in>set (dictionary_backup ?f). length w = 5"
    by (simp add: five_agent_def init_def)
  have w3: "\<forall>w\<in>set (dictionary_backup rain_agent). length w = 5"
    by (simp add: rain_agent_def init_def)
  have l1: "length (letter_indices_to_word [1, 17, 0, 8, 13] (letters ?r)) = 5"
    "length (letter_indices_to_word [25, 25, 25, 25, 25] (letters ?f)) = 5"
    "length (letter_indices_to_word [1, 17, 0, 8, 13] (letters rain_agent)) = 5"
    by (simp_all add: letter_indices_to_word_def)
  have g1: "(1::int) \<noteq> 0" and g2: "(2::int) \<noteq> 0" by simp_all
  have s5: "length ?st = 5" "length ([0, 0, 0, 0, 0] :: int list) = 5" by simp_all
  have c1: "(1::int) \<noteq> last_guess_counter ?r + 1" by simp
  have c2: "(2::int) \<noteq> last_guess_counter ?f + 1" by (simp add: five_agent_def init_def)
  have c3: "(1::int) = last_guess_counter rain_agent + 1" by (simp add: rain_fields)
  note t1 = rejected_guess_removed [OF g1 w1 s5(1) l1(1) b1, of True]
  note t2 = rejected_guess_removed [OF g2 w2 s5(2) l1(2) b2, of True]
  note t3 = rejected_guess_removed [OF g1 w3 s5(1) l1(3) b3, of True]
  from t1 c1 have "\<exists>a'. Suc (length (dictionary_backup a')) = 3 \<and>
      AgentFunction letter_indices_to_word True ?r (1, [1, 17, 0, 8, 13], ?st) =
        (choose_guess a' (1, [1, 17, 0, 8, 13], ?st), True, a')"
    by auto
  moreover from t2 c2 have "\<exists>a'. Suc (length (dictionary_backup a')) = 5 \<and>
      AgentFunction letter_indices_to_word True ?f (2, [25, 25, 25, 25, 25], [0, 0, 0, 0, 0]) =
        (choose_guess a' (2, [25, 25, 25, 25, 25], [0, 0, 0, 0, 0]), True, a')"
    by auto
  moreover from t3 c3 have "\<exists>a'. dictionary_backup a' = [''DRAIN'', ''TRAIN'', ''GRAIN''] \<and>
      AgentFunction letter_indices_to_word True rain_agent (1, [1, 17, 0, 8, 13], ?st) =
        (choose_guess a' (1, [1, 17, 0, 8, 13], ?st), True, a')"
    by auto
  ultimately show ?thesis
    using b1 [symmetric] b2 [symmetric] b3 [symmetric] rain_third five_rejected rain_second
    by simp
qed

end
